theory Spec2Isabelle
  imports Complex_Main "HOL-Library.AList" "HOL-Library.Multiset"
begin

section \<open>Data model\<close>

text \<open>
  The device handle of the protocol library (\<open>Device\<close> of \<open>lifxlan\<close>): the stable serial
  number and the current network address of a device.
\<close>

record Device =
  dev_serialNumber :: string
  dev_address :: string
  dev_port :: nat

text \<open>\<open>store.ts\<close>: \<open>DeviceType = 'light' | 'switch' | 'unknown'\<close>.\<close>

datatype DeviceType = Light | Switch | Unknown

text \<open>\<open>SWITCH_PRODUCT_IDS = [70, 71, 89]\<close>.\<close>

definition SWITCH_PRODUCT_IDS :: "int list" where
  "SWITCH_PRODUCT_IDS = [70, 71, 89]"

record HSBK =
  hue :: int
  saturation :: int
  brightness :: int
  kelvin :: int

record DeviceState =
  serialNumber :: string
  device :: Device
  label :: string
  group :: string
  groupId :: string
  power :: bool
  color :: HSBK
  online :: bool
  selected :: bool
  lastSeen :: int
  deviceType :: DeviceType
  productId :: int

text \<open>
  \<open>GroupState\<close>; the fields \<open>id\<close>, \<open>label\<close>, \<open>devices\<close>, \<open>expanded\<close> carry the prefix
  \<open>g_\<close> here.
\<close>

record GroupState =
  g_id :: string
  g_label :: string
  g_devices :: "string list"
  g_expanded :: bool

text \<open>
  \<open>LifxStore\<close>. The two \<open>Record<string, _>\<close> objects are association lists in insertion
  order, which is the order \<open>Object.keys\<close> and \<open>Object.values\<close> enumerate string keys in;
  \<open>map_of\<close> is the property read, \<open>AList.update\<close> the write of a whole entry (a new key
  goes to the end) and \<open>AList.map_entry\<close> the write of a field of an existing entry.
\<close>

record LifxStore =
  devices :: "(string \<times> DeviceState) list"
  groups :: "(string \<times> GroupState) list"
  selectedDevices :: "string list"
  isScanning :: bool

section \<open>Transport (\<open>client.ts\<close>)\<close>

text \<open>
  The closure state of \<open>LifxClient\<close>: the two variables \<open>sendCounter\<close> and
  \<open>socketShouldClose\<close>, whether the discovery timer \<open>scanInterval\<close> is still set, and of
  the UDP socket the two facts the code depends on: whether \<open>socket.close()\<close> has been
  called, and how many datagrams have been handed to \<open>socket.send\<close> whose completion
  callback has not run yet.
\<close>

record Transport =
  sendCounter :: int
  socketShouldClose :: bool
  scanInterval :: bool
  socket_closed :: bool
  socket_pending :: nat

definition Transport_init :: Transport where
  "Transport_init = \<lparr>sendCounter = 0, socketShouldClose = False, scanInterval = True,
     socket_closed = False, socket_pending = 0\<rparr>"

text \<open>\<open>socketCallback()\<close>: decrement, then close when asked to and the counter is used up.\<close>

definition socketCallback :: "Transport \<Rightarrow> Transport" where
  "socketCallback t =
     (let t1 = t\<lparr>sendCounter := sendCounter t - 1\<rparr>
      in if socketShouldClose t1 \<and> sendCounter t1 \<le> 0
         then t1\<lparr>socket_closed := True\<rparr> else t1)"

text \<open>
  \<open>onSend\<close> of the router: count the datagram and hand it to the socket with
  \<open>socketCallback\<close> as its completion callback.
\<close>

definition onSend :: "Transport \<Rightarrow> Transport" where
  "onSend t = t\<lparr>sendCounter := sendCounter t + 1, socket_pending := Suc (socket_pending t)\<rparr>"

text \<open>The event loop completing one pending send: its callback runs.\<close>

definition send_completed :: "Transport \<Rightarrow> Transport" where
  "send_completed t = socketCallback (t\<lparr>socket_pending := socket_pending t - 1\<rparr>)"

text \<open>\<open>close()\<close>: clear the timer, raise the flag, call \<open>socketCallback()\<close>.\<close>

definition close :: "Transport \<Rightarrow> Transport" where
  "close t = socketCallback (t\<lparr>scanInterval := False, socketShouldClose := True\<rparr>)"

section \<open>Pattern scheduler (\<open>createDJEngine\<close>)\<close>

datatype DJPattern = Chase | Strobe | Alternate | Wave | Random | Pulse | Blackout

record DJConfig =
  bpm :: real
  pattern :: DJPattern
  colors :: "HSBK list"
  intensity :: real
  subdivision :: real

text \<open>\<open>Partial<DJConfig>\<close>: every field may be absent.\<close>

record DJConfig_partial =
  p_bpm :: "real option"
  p_pattern :: "DJPattern option"
  p_colors :: "HSBK list option"
  p_intensity :: "real option"
  p_subdivision :: "real option"

text \<open>The object spread \<open>{ ...prev, ...newConfig }\<close>.\<close>

definition merge_config :: "DJConfig \<Rightarrow> DJConfig_partial \<Rightarrow> DJConfig" where
  "merge_config prev newConfig =
     \<lparr>bpm = (case p_bpm newConfig of None \<Rightarrow> bpm prev | Some v \<Rightarrow> v),
      pattern = (case p_pattern newConfig of None \<Rightarrow> pattern prev | Some v \<Rightarrow> v),
      colors = (case p_colors newConfig of None \<Rightarrow> colors prev | Some v \<Rightarrow> v),
      intensity = (case p_intensity newConfig of None \<Rightarrow> intensity prev | Some v \<Rightarrow> v),
      subdivision = (case p_subdivision newConfig of None \<Rightarrow> subdivision prev | Some v \<Rightarrow> v)\<rparr>"

text \<open>The literal \<open>{ bpm: newBpm }\<close>.\<close>

definition only_bpm :: "real \<Rightarrow> DJConfig_partial" where
  "only_bpm b = \<lparr>p_bpm = Some b, p_pattern = None, p_colors = None, p_intensity = None,
     p_subdivision = None\<rparr>"

text \<open>
  The closure state of the engine. \<open>intervalId\<close> is \<open>None\<close> for \<open>null\<close> and otherwise
  holds the period, in milliseconds, the running timer was created with.
\<close>

record DJEngine =
  intervalId :: "real option"
  beatCount :: nat
  lastBeatTime :: int
  lastTapTime :: int
  dj_devices :: "Device list"
  config :: DJConfig

text \<open>The three default colours and the state \<open>createDJEngine\<close> starts in.\<close>

definition DEFAULT_BLUE :: HSBK where
  "DEFAULT_BLUE = \<lparr>hue = 43690, saturation = 65535, brightness = 65535, kelvin = 3500\<rparr>"

definition DEFAULT_PURPLE :: HSBK where
  "DEFAULT_PURPLE = \<lparr>hue = 49151, saturation = 65535, brightness = 65535, kelvin = 3500\<rparr>"

definition DEFAULT_PINK :: HSBK where
  "DEFAULT_PINK = \<lparr>hue = 58981, saturation = 45000, brightness = 65535, kelvin = 3500\<rparr>"

definition DJEngine_init :: DJEngine where
  "DJEngine_init = \<lparr>intervalId = None, beatCount = 0, lastBeatTime = 0, lastTapTime = 0,
     dj_devices = [],
     config = \<lparr>bpm = 120, pattern = Chase,
       colors = [DEFAULT_BLUE, DEFAULT_PURPLE, DEFAULT_PINK], intensity = 1,
       subdivision = 1\<rparr>\<rparr>"

definition getBeatInterval :: "DJEngine \<Rightarrow> real" where
  "getBeatInterval e = (60000 / bpm (config e)) / subdivision (config e)"

definition stop :: "DJEngine \<Rightarrow> DJEngine" where
  "stop e = (if intervalId e \<noteq> None then e\<lparr>intervalId := None\<rparr> else e)"

definition updateConfig :: "DJConfig_partial \<Rightarrow> DJEngine \<Rightarrow> DJEngine" where
  "updateConfig newConfig e =
     (let e1 = e\<lparr>config := merge_config (config e) newConfig\<rparr>
      in if intervalId e1 \<noteq> None
         then (stop e1)\<lparr>intervalId := Some (getBeatInterval (stop e1))\<rparr>
         else e1)"

text \<open>
  \<open>tapTempo()\<close>, with the reading of \<open>Date.now()\<close> as the argument \<open>now\<close>.
  \<open>Math.round\<close> rounds to the nearest integer, a tie upwards: \<open>\<lfloor>x + 1/2\<rfloor>\<close>, which is
  \<^const>\<open>round\<close>. The quotient \<open>60000 / interval\<close> of two integers below \<open>2\<^sup>5\<^sup>3\<close> is
  either exact in binary floating point or further from a tie than the rounding error,
  so the real quotient rounds to the same integer.
\<close>

definition tapTempo :: "int \<Rightarrow> DJEngine \<Rightarrow> DJEngine" where
  "tapTempo now e =
     (let e1 =
        (if lastTapTime e > 0 then
           (let interval = now - lastTapTime e
            in if interval > 200 \<and> interval < 2000
               then (let newBpm = round (60000 / real_of_int interval)
                     in updateConfig (only_bpm (real_of_int newBpm)) e)
               else e)
         else e)
      in e1\<lparr>lastTapTime := now\<rparr>)"

section \<open>State store (\<open>store.ts\<close>)\<close>

subsection \<open>Exceptions and the store's write primitive\<close>

datatype error = TypeError

text \<open>
  A call either returns or throws; a throw keeps the writes made before it, so both
  carry the state reached.
\<close>

datatype 'a outcome = Returned 'a | Threw error 'a

fun state_of :: "'a outcome \<Rightarrow> 'a" where
  "state_of (Returned s) = s"
| "state_of (Threw e s) = s"

fun and_then :: "'a outcome \<Rightarrow> ('a \<Rightarrow> 'a outcome) \<Rightarrow> 'a outcome" where
  "and_then (Returned s) f = f s"
| "and_then (Threw e s) f = Threw e s"

text \<open>
  \<open>setStore('devices', sn, field, value)\<close> on a record that exists: the field is written
  in place.
\<close>

definition set_device :: "string \<Rightarrow> (DeviceState \<Rightarrow> DeviceState) \<Rightarrow> LifxStore \<Rightarrow> LifxStore" where
  "set_device sn f st = st\<lparr>devices := AList.map_entry sn f (devices st)\<rparr>"

text \<open>
  The same call where the code does not check that the record exists. The store library
  walks the path and reads the field of \<open>store.devices[sn]\<close>; on a serial number with no
  record that read is a read of a property of \<open>undefined\<close>, which throws a
  \<open>TypeError\<close> before anything is written.
\<close>

definition setStore_devices ::
  "string \<Rightarrow> (DeviceState \<Rightarrow> DeviceState) \<Rightarrow> LifxStore \<Rightarrow> LifxStore outcome" where
  "setStore_devices sn f st =
     (case map_of (devices st) sn of
        None \<Rightarrow> Threw TypeError st
      | Some d \<Rightarrow> Returned (set_device sn f st))"

definition setStore_groups ::
  "string \<Rightarrow> (GroupState \<Rightarrow> GroupState) \<Rightarrow> LifxStore \<Rightarrow> LifxStore outcome" where
  "setStore_groups gid f st =
     (case map_of (groups st) gid of
        None \<Rightarrow> Threw TypeError st
      | Some g \<Rightarrow> Returned (st\<lparr>groups := AList.map_entry gid f (groups st)\<rparr>))"

text \<open>
  The optional reads \<open>store.devices[sn]?.selected\<close>, \<open>?.online\<close> and \<open>?.power\<close> in a
  condition: \<open>undefined\<close> for a missing record, which counts as false.
\<close>

definition is_selected :: "LifxStore \<Rightarrow> string \<Rightarrow> bool" where
  "is_selected st sn = (case map_of (devices st) sn of None \<Rightarrow> False | Some d \<Rightarrow> selected d)"

definition is_online :: "LifxStore \<Rightarrow> string \<Rightarrow> bool" where
  "is_online st sn = (case map_of (devices st) sn of None \<Rightarrow> False | Some d \<Rightarrow> online d)"

definition is_on :: "LifxStore \<Rightarrow> string \<Rightarrow> bool" where
  "is_on st sn = (case map_of (devices st) sn of None \<Rightarrow> False | Some d \<Rightarrow> power d)"

subsection \<open>Replies of the four state queries\<close>

text \<open>
  \<open>PromiseSettledResult\<close>: \<open>{status: 'fulfilled', value}\<close> or \<open>{status: 'rejected'}\<close>.
  The code also tests \<open>value\<close> for truthiness: a reply object is always truthy, a label
  string is truthy when it is not empty.
\<close>

datatype 'a PromiseSettledResult = Fulfilled 'a | Rejected

text \<open>The fields the code reads of the replies to \<open>GetColor\<close>, \<open>GetGroup\<close>, \<open>GetVersion\<close>.\<close>

record LightState =
  ls_hue :: int
  ls_saturation :: int
  ls_brightness :: int
  ls_kelvin :: int
  ls_power :: "int option"

record StateGroup =
  sg_group :: string
  sg_label :: string

record StateVersion =
  sv_product :: "int option"

record QueryResults =
  colorResult :: "LightState PromiseSettledResult"
  labelResult :: "string PromiseSettledResult"
  groupResult :: "StateGroup PromiseSettledResult"
  versionResult :: "StateVersion PromiseSettledResult"

subsection \<open>\<open>queryDeviceState\<close>\<close>

text \<open>The body of \<open>batch(() => { ... })\<close>, block by block.\<close>

definition apply_versionResult ::
  "string \<Rightarrow> StateVersion PromiseSettledResult \<Rightarrow> LifxStore \<Rightarrow> LifxStore outcome" where
  "apply_versionResult sn r st =
     (case r of
        Rejected \<Rightarrow> Returned st
      | Fulfilled versionVal \<Rightarrow>
          (let pid = (case sv_product versionVal of None \<Rightarrow> 0 | Some p \<Rightarrow> p)
           in and_then (setStore_devices sn (\<lambda>d. d\<lparr>productId := pid\<rparr>) st)
                (\<lambda>st. if pid \<in> set SWITCH_PRODUCT_IDS
                       then setStore_devices sn (\<lambda>d. d\<lparr>deviceType := Switch\<rparr>) st
                       else setStore_devices sn (\<lambda>d. d\<lparr>deviceType := Light\<rparr>) st)))"

definition apply_colorResult ::
  "string \<Rightarrow> LightState PromiseSettledResult \<Rightarrow> LifxStore \<Rightarrow> LifxStore outcome" where
  "apply_colorResult sn r st =
     (case r of
        Rejected \<Rightarrow> Returned st
      | Fulfilled v \<Rightarrow>
          and_then
            (setStore_devices sn
               (\<lambda>d. d\<lparr>color := \<lparr>hue = ls_hue v, saturation = ls_saturation v,
                                 brightness = ls_brightness v, kelvin = ls_kelvin v\<rparr>\<rparr>) st)
            (\<lambda>st. case ls_power v of
                     None \<Rightarrow> Returned st
                   | Some p \<Rightarrow> setStore_devices sn (\<lambda>d. d\<lparr>power := (p > 0)\<rparr>) st))"

definition apply_labelResult ::
  "string \<Rightarrow> string PromiseSettledResult \<Rightarrow> LifxStore \<Rightarrow> LifxStore outcome" where
  "apply_labelResult sn r st =
     (case r of
        Rejected \<Rightarrow> Returned st
      | Fulfilled v \<Rightarrow>
          if v \<noteq> [] then setStore_devices sn (\<lambda>d. d\<lparr>label := v\<rparr>) st else Returned st)"

definition apply_groupResult ::
  "string \<Rightarrow> StateGroup PromiseSettledResult \<Rightarrow> LifxStore \<Rightarrow> LifxStore outcome" where
  "apply_groupResult sn r st =
     (case r of
        Rejected \<Rightarrow> Returned st
      | Fulfilled groupVal \<Rightarrow>
          (let gid = sg_group groupVal; groupLabel = sg_label groupVal
           in and_then (setStore_devices sn (\<lambda>d. d\<lparr>group := groupLabel\<rparr>) st)
             (\<lambda>st. and_then (setStore_devices sn (\<lambda>d. d\<lparr>groupId := gid\<rparr>) st)
               (\<lambda>st. case map_of (groups st) gid of
                        None \<Rightarrow>
                          Returned (st\<lparr>groups :=
                            AList.update gid
                              \<lparr>g_id = gid, g_label = groupLabel, g_devices = [sn],
                               g_expanded = True\<rparr> (groups st)\<rparr>)
                      | Some g \<Rightarrow>
                          if sn \<notin> set (g_devices g)
                          then Returned (st\<lparr>groups :=
                            AList.map_entry gid (\<lambda>g. g\<lparr>g_devices := g_devices g @ [sn]\<rparr>)
                              (groups st)\<rparr>)
                          else Returned st))))"

definition batch_update :: "string \<Rightarrow> QueryResults \<Rightarrow> int \<Rightarrow> LifxStore \<Rightarrow> LifxStore outcome" where
  "batch_update sn rs now st =
     and_then (apply_versionResult sn (versionResult rs) st)
       (\<lambda>st. and_then (apply_colorResult sn (colorResult rs) st)
         (\<lambda>st. and_then (apply_labelResult sn (labelResult rs) st)
           (\<lambda>st. and_then (apply_groupResult sn (groupResult rs) st)
             (\<lambda>st. and_then (setStore_devices sn (\<lambda>d. d\<lparr>online := True\<rparr>) st)
               (\<lambda>st. setStore_devices sn (\<lambda>d. d\<lparr>lastSeen := now\<rparr>) st)))))"

text \<open>
  What follows the \<open>await\<close> inside \<open>try\<close>, with the \<open>catch\<close> block: \<open>Promise.allSettled\<close>
  never rejects, so the only way into \<open>catch\<close> is a throw of the batch.
\<close>

definition apply_results :: "string \<Rightarrow> QueryResults \<Rightarrow> int \<Rightarrow> LifxStore \<Rightarrow> LifxStore outcome" where
  "apply_results sn rs now st =
     (case batch_update sn rs now st of
        Returned st1 \<Rightarrow> Returned st1
      | Threw e st1 \<Rightarrow> setStore_devices sn (\<lambda>d. d\<lparr>online := False\<rparr>) st1)"

text \<open>The commands handed to the protocol client.\<close>

datatype Command =
  GetColorCommand | GetLabelCommand | GetGroupCommand | GetVersionCommand
| SetColorCommand int int int int int
| SetLightPowerCommand bool int

text \<open>
  The store with the rest of the closure of \<open>createLifxStore\<close> and its surroundings:
  the set \<open>pendingQueries\<close>; the refresh cycles suspended at their \<open>await\<close>, one entry
  per running call of \<open>queryDeviceState\<close>; and the commands handed to \<open>client.send\<close> and
  \<open>client.unicast\<close> so far, with the device each was addressed to.
\<close>

record System =
  store :: LifxStore
  pendingQueries :: "string set"
  awaiting :: "string list"
  sent :: "(Command \<times> Device) list"

definition System_init :: System where
  "System_init = \<lparr>store = \<lparr>devices = [], groups = [], selectedDevices = [], isScanning = True\<rparr>,
     pendingQueries = {}, awaiting = [], sent = []\<rparr>"

text \<open>
  \<open>queryDeviceState\<close> up to its \<open>await\<close>: the guard on \<open>pendingQueries\<close>, then the four
  queries. Each call of \<open>client.send\<close> is taken to return its promise, a failure of the
  query being a rejection of that promise; a call that throws before returning would go
  to the \<open>catch\<close> block without suspending, and is not a step of this model.
\<close>

definition queryDeviceState_start :: "Device \<Rightarrow> System \<Rightarrow> System" where
  "queryDeviceState_start dev s =
     (let sn = dev_serialNumber dev
      in if sn \<in> pendingQueries s then s
         else s\<lparr>pendingQueries := insert sn (pendingQueries s),
                sent := sent s @ [(GetColorCommand, dev), (GetLabelCommand, dev),
                                  (GetGroupCommand, dev), (GetVersionCommand, dev)],
                awaiting := awaiting s @ [sn]\<rparr>)"

text \<open>
  \<open>queryDeviceState\<close> from its \<open>await\<close> on, once the four queries have settled with
  \<open>rs\<close>, at the clock reading \<open>now\<close>; \<open>finally\<close> runs on both ways out.
\<close>

definition queryDeviceState_settle :: "string \<Rightarrow> QueryResults \<Rightarrow> int \<Rightarrow> System \<Rightarrow> System outcome" where
  "queryDeviceState_settle sn rs now s =
     (let fin = (\<lambda>st. s\<lparr>store := st, pendingQueries := pendingQueries s - {sn},
                         awaiting := remove1 sn (awaiting s)\<rparr>)
      in case apply_results sn rs now (store s) of
           Returned st \<Rightarrow> Returned (fin st)
         | Threw e st \<Rightarrow> Threw e (fin st))"

subsection \<open>\<open>registerDevice\<close>\<close>

definition registerDevice :: "Device \<Rightarrow> int \<Rightarrow> System \<Rightarrow> System" where
  "registerDevice dev now s =
     (let sn = dev_serialNumber dev; st = store s;
          st1 = (if map_of (devices st) sn = None
                 then st\<lparr>devices := AList.update sn
                        \<lparr>serialNumber = sn, device = dev, label = drop (length sn - 6) sn,
                         group = [], groupId = [], power = False,
                         color = \<lparr>hue = 0, saturation = 0, brightness = 32768, kelvin = 3500\<rparr>,
                         online = True, selected = False, lastSeen = now,
                         deviceType = Unknown, productId = 0\<rparr> (devices st)\<rparr>
                 else set_device sn (\<lambda>d. d\<lparr>lastSeen := now\<rparr>)
                        (set_device sn (\<lambda>d. d\<lparr>device := dev\<rparr>) st))
      in queryDeviceState_start dev (s\<lparr>store := st1\<rparr>))"

subsection \<open>Selection\<close>

text \<open>\<open>Object.keys(store.devices)\<close>.\<close>

definition device_keys :: "LifxStore \<Rightarrow> string list" where
  "device_keys st = map fst (devices st)"

definition updateSelectedList :: "LifxStore \<Rightarrow> LifxStore" where
  "updateSelectedList st = st\<lparr>selectedDevices := filter (is_selected st) (device_keys st)\<rparr>"

definition toggleSelect :: "string \<Rightarrow> LifxStore \<Rightarrow> LifxStore outcome" where
  "toggleSelect sn st =
     (let isSelected = is_selected st sn
      in and_then (setStore_devices sn (\<lambda>d. d\<lparr>selected := \<not> isSelected\<rparr>) st)
           (\<lambda>st. Returned (updateSelectedList st)))"

definition selectDevice :: "string \<Rightarrow> LifxStore \<Rightarrow> LifxStore outcome" where
  "selectDevice sn st =
     and_then
       (setStore_devices sn (\<lambda>d. d\<lparr>selected := True\<rparr>)
          (fold (\<lambda>k. set_device k (\<lambda>d. d\<lparr>selected := False\<rparr>)) (device_keys st) st))
       (\<lambda>st. Returned (updateSelectedList st))"

text \<open>
  The loop body shared by \<open>selectAll\<close> and \<open>selectGroup\<close>:
  \<open>if (store.devices[sn]?.online) setStore('devices', sn, 'selected', v)\<close>.
\<close>

definition select_if_online :: "bool \<Rightarrow> string \<Rightarrow> LifxStore \<Rightarrow> LifxStore" where
  "select_if_online v sn st =
     (if is_online st sn then set_device sn (\<lambda>d. d\<lparr>selected := v\<rparr>) st else st)"

definition selectAll :: "LifxStore \<Rightarrow> LifxStore" where
  "selectAll st = updateSelectedList (fold (select_if_online True) (device_keys st) st)"

definition selectNone :: "LifxStore \<Rightarrow> LifxStore" where
  "selectNone st =
     updateSelectedList
       (fold (\<lambda>k. set_device k (\<lambda>d. d\<lparr>selected := False\<rparr>)) (device_keys st) st)"

definition selectGroup :: "string \<Rightarrow> LifxStore \<Rightarrow> LifxStore" where
  "selectGroup gid st =
     (case map_of (groups st) gid of
        None \<Rightarrow> st
      | Some grp \<Rightarrow>
          (let allSelected = list_all (is_selected st) (g_devices grp)
           in updateSelectedList (fold (select_if_online (\<not> allSelected)) (g_devices grp) st)))"

definition toggleGroup :: "string \<Rightarrow> LifxStore \<Rightarrow> LifxStore outcome" where
  "toggleGroup gid st = setStore_groups gid (\<lambda>g. g\<lparr>g_expanded := \<not> g_expanded g\<rparr>) st"

subsection \<open>Command intents\<close>

text \<open>
  \<open>client.unicast\<close> is called inside \<open>try\<close>, with the optimistic write after it: the
  argument \<open>ok\<close> says, for a command and a device, whether the call returns (\<open>True\<close>) or
  throws, in which case the write is skipped. An omitted \<open>duration\<close> is \<open>None\<close>.
\<close>

definition setColor_one ::
  "(Command \<Rightarrow> Device \<Rightarrow> bool) \<Rightarrow> HSBK \<Rightarrow> int \<Rightarrow> string \<Rightarrow> System \<Rightarrow> System" where
  "setColor_one ok hsbk duration sn s =
     (case map_of (devices (store s)) sn of
        None \<Rightarrow> s
      | Some deviceState \<Rightarrow>
          if \<not> online deviceState then s
          else (let cmd = SetColorCommand (hue hsbk) (saturation hsbk) (brightness hsbk)
                            (kelvin hsbk) duration
                in if ok cmd (device deviceState)
                   then s\<lparr>sent := sent s @ [(cmd, device deviceState)],
                          store := set_device sn
                            (\<lambda>d. d\<lparr>color := \<lparr>hue = hue hsbk, saturation = saturation hsbk,
                                     brightness = brightness hsbk, kelvin = kelvin hsbk\<rparr>\<rparr>)
                            (store s)\<rparr>
                   else s))"

definition setColor ::
  "(Command \<Rightarrow> Device \<Rightarrow> bool) \<Rightarrow> HSBK \<Rightarrow> int option \<Rightarrow> System \<Rightarrow> System" where
  "setColor ok hsbk duration s =
     (let sel = selectedDevices (store s)
      in if sel = [] then s
         else fold (setColor_one ok hsbk (case duration of None \<Rightarrow> 250 | Some d \<Rightarrow> d)) sel s)"

definition setPower_one ::
  "(Command \<Rightarrow> Device \<Rightarrow> bool) \<Rightarrow> bool \<Rightarrow> int \<Rightarrow> string \<Rightarrow> System \<Rightarrow> System" where
  "setPower_one ok on duration sn s =
     (case map_of (devices (store s)) sn of
        None \<Rightarrow> s
      | Some deviceState \<Rightarrow>
          if \<not> online deviceState then s
          else (let cmd = SetLightPowerCommand on duration
                in if ok cmd (device deviceState)
                   then s\<lparr>sent := sent s @ [(cmd, device deviceState)],
                          store := set_device sn (\<lambda>d. d\<lparr>power := on\<rparr>) (store s)\<rparr>
                   else s))"

definition setPower ::
  "(Command \<Rightarrow> Device \<Rightarrow> bool) \<Rightarrow> bool \<Rightarrow> int option \<Rightarrow> System \<Rightarrow> System" where
  "setPower ok on duration s =
     (let sel = selectedDevices (store s)
      in if sel = [] then s
         else fold (setPower_one ok on (case duration of None \<Rightarrow> 0 | Some d \<Rightarrow> d)) sel s)"

definition togglePower :: "(Command \<Rightarrow> Device \<Rightarrow> bool) \<Rightarrow> System \<Rightarrow> System" where
  "togglePower ok s =
     (let sel = selectedDevices (store s)
      in if sel = [] then s
         else (let anyOn = list_ex (is_on (store s)) sel
               in setPower ok (\<not> anyOn) None s))"

subsection \<open>Grouped read views\<close>

text \<open>
  \<open>Array.prototype.sort(compare)\<close> is stable, and for a consistent comparator its result
  is the one sorted arrangement that keeps equal elements in their order; insertion from
  the right computes it. The comparator returns a number, and \<open>x\<close> goes before \<open>y\<close> when
  \<open>compare(x, y) \<le> 0\<close>.
\<close>

fun insert_sorted :: "('a \<Rightarrow> 'a \<Rightarrow> int) \<Rightarrow> 'a \<Rightarrow> 'a list \<Rightarrow> 'a list" where
  "insert_sorted cmp x [] = [x]"
| "insert_sorted cmp x (y # ys) =
     (if cmp x y \<le> 0 then x # y # ys else y # insert_sorted cmp x ys)"

definition array_sort :: "('a \<Rightarrow> 'a \<Rightarrow> int) \<Rightarrow> 'a list \<Rightarrow> 'a list" where
  "array_sort cmp xs = foldr (insert_sorted cmp) xs []"

text \<open>
  \<open>String.prototype.localeCompare\<close> is the argument \<open>lc\<close> of both views: the collation
  is the runtime's.
\<close>

definition not_switch :: "LifxStore \<Rightarrow> string \<Rightarrow> bool" where
  "not_switch st sn =
     (case map_of (devices st) sn of None \<Rightarrow> False | Some d \<Rightarrow> deviceType d \<noteq> Switch)"

definition getGroupDevices ::
  "(string \<Rightarrow> string \<Rightarrow> int) \<Rightarrow> string \<Rightarrow> LifxStore \<Rightarrow> DeviceState list" where
  "getGroupDevices lc gid st =
     (case map_of (groups st) gid of
        None \<Rightarrow> []
      | Some grp \<Rightarrow>
          array_sort (\<lambda>a b. lc (label a) (label b))
            (filter (\<lambda>d. deviceType d \<noteq> Switch)
               (List.map_filter (\<lambda>sn. map_of (devices st) sn) (g_devices grp))))"

definition hasLights :: "LifxStore \<Rightarrow> GroupState \<Rightarrow> bool" where
  "hasLights st g = list_ex (not_switch st) (g_devices g)"

definition group_compare :: "(string \<Rightarrow> string \<Rightarrow> int) \<Rightarrow> GroupState \<Rightarrow> GroupState \<Rightarrow> int" where
  "group_compare lc a b =
     (if g_id a = ''ungrouped'' then 1
      else if g_id b = ''ungrouped'' then - 1
      else lc (g_label a) (g_label b))"

definition getSortedGroups :: "(string \<Rightarrow> string \<Rightarrow> int) \<Rightarrow> LifxStore \<Rightarrow> GroupState list" where
  "getSortedGroups lc st =
     array_sort (group_compare lc) (filter (hasLights st) (map snd (groups st)))"

subsection \<open>The operations of the store as events\<close>

text \<open>
  Everything runs on one event loop, so a run of the store is a sequence of steps, each
  of them one synchronous stretch of code: a call of one of the returned functions, or
  the continuation of a refresh once its four queries have settled. \<open>refreshAll\<close> is
  the step \<open>SetScanning True\<close>, then for each device in turn a \<open>QueryDeviceState\<close> step and
  (when that call was not turned away by the guard) the \<open>QuerySettled\<close> step it waits
  for, then \<open>SetScanning False\<close>. The continuation of a refresh can only run for a
  refresh that is suspended; the step of any other \<open>QuerySettled\<close> is the identity. A
  step that throws hands the exception to its caller and leaves the state it had
  reached.
\<close>

datatype Event =
  RegisterDevice Device int
| QueryDeviceState Device
| QuerySettled string QueryResults int
| ToggleSelect string
| SelectDevice string
| SelectAll
| SelectNone
| SelectGroup string
| ToggleGroup string
| SetColor "Command \<Rightarrow> Device \<Rightarrow> bool" HSBK "int option"
| SetPower "Command \<Rightarrow> Device \<Rightarrow> bool" bool "int option"
| TogglePower "Command \<Rightarrow> Device \<Rightarrow> bool"
| SetScanning bool

fun step :: "Event \<Rightarrow> System \<Rightarrow> System" where
  "step (RegisterDevice dev now) s = registerDevice dev now s"
| "step (QueryDeviceState dev) s = queryDeviceState_start dev s"
| "step (QuerySettled sn rs now) s =
     (if sn \<in> set (awaiting s) then state_of (queryDeviceState_settle sn rs now s) else s)"
| "step (ToggleSelect sn) s = s\<lparr>store := state_of (toggleSelect sn (store s))\<rparr>"
| "step (SelectDevice sn) s = s\<lparr>store := state_of (selectDevice sn (store s))\<rparr>"
| "step SelectAll s = s\<lparr>store := selectAll (store s)\<rparr>"
| "step SelectNone s = s\<lparr>store := selectNone (store s)\<rparr>"
| "step (SelectGroup gid) s = s\<lparr>store := selectGroup gid (store s)\<rparr>"
| "step (ToggleGroup gid) s = s\<lparr>store := state_of (toggleGroup gid (store s))\<rparr>"
| "step (SetColor ok hsbk duration) s = setColor ok hsbk duration s"
| "step (SetPower ok on duration) s = setPower ok on duration s"
| "step (TogglePower ok) s = togglePower ok s"
| "step (SetScanning b) s = s\<lparr>store := (store s)\<lparr>isScanning := b\<rparr>\<rparr>"

definition run :: "Event list \<Rightarrow> System \<Rightarrow> System" where
  "run evs s = fold step evs s"

text \<open>Whether the member list of group \<open>gid\<close> holds the serial number \<open>sn\<close>.\<close>

definition group_member :: "LifxStore \<Rightarrow> string \<Rightarrow> string \<Rightarrow> bool" where
  "group_member st gid sn =
     (case map_of (groups st) gid of None \<Rightarrow> False | Some g \<Rightarrow> sn \<in> set (g_devices g))"

subsection \<open>Sample devices and replies\<close>

text \<open>Two devices and some replies, for the concrete runs.\<close>

definition lamp :: Device where
  "lamp = \<lparr>dev_serialNumber = ''d073d5000001'', dev_address = ''192.168.1.20'', dev_port = 56700\<rparr>"

definition spot :: Device where
  "spot = \<lparr>dev_serialNumber = ''d073d5000002'', dev_address = ''192.168.1.21'', dev_port = 56700\<rparr>"

definition all_rejected :: QueryResults where
  "all_rejected = \<lparr>colorResult = Rejected, labelResult = Rejected, groupResult = Rejected,
     versionResult = Rejected\<rparr>"

definition living_room :: StateGroup where
  "living_room = \<lparr>sg_group = ''a1b2'', sg_label = ''Living Room''\<rparr>"

definition kitchen :: StateGroup where
  "kitchen = \<lparr>sg_group = ''c3d4'', sg_label = ''Kitchen''\<rparr>"

definition white_on :: LightState where
  "white_on = \<lparr>ls_hue = 0, ls_saturation = 0, ls_brightness = 65535, ls_kelvin = 2700,
     ls_power = Some 65535\<rparr>"

definition white_off :: LightState where
  "white_off = \<lparr>ls_hue = 0, ls_saturation = 0, ls_brightness = 65535, ls_kelvin = 2700,
     ls_power = Some 0\<rparr>"

text \<open>Every query but the label query answered; product 27 is a bulb.\<close>

definition label_failed :: QueryResults where
  "label_failed = \<lparr>colorResult = Fulfilled white_on, labelResult = Rejected,
     groupResult = Fulfilled living_room,
     versionResult = Fulfilled \<lparr>sv_product = Some 27\<rparr>\<rparr>"

text \<open>Only the group query answered.\<close>

definition only_group :: "StateGroup \<Rightarrow> QueryResults" where
  "only_group g = \<lparr>colorResult = Rejected, labelResult = Rejected, groupResult = Fulfilled g,
     versionResult = Rejected\<rparr>"

text \<open>The colour and the group query answered.\<close>

definition color_and_group :: "LightState \<Rightarrow> StateGroup \<Rightarrow> QueryResults" where
  "color_and_group c g = \<lparr>colorResult = Fulfilled c, labelResult = Rejected,
     groupResult = Fulfilled g, versionResult = Rejected\<rparr>"

text \<open>
  A run from the initial state: both devices are discovered at time 1; at time 2 their
  refreshes settle with the colour and group queries answered, the lamp on and the spot
  off, both in the living room.
\<close>

definition two_lamps :: System where
  "two_lamps =
     run [RegisterDevice lamp 1, RegisterDevice spot 1,
          QuerySettled ''d073d5000001'' (color_and_group white_on living_room) 2,
          QuerySettled ''d073d5000002'' (color_and_group white_off living_room) 2]
       System_init"

text \<open>The same with the lamp selected, and with both selected.\<close>

definition lamp_selected :: System where
  "lamp_selected = run [ToggleSelect ''d073d5000001''] two_lamps"





text \<open>
  A third device, a wall switch (product 70), and a run in which all three devices are
  discovered and refreshed with the colour, group and version queries answered: the lamp
  (a bulb, product 27) in the living room, the spot (product 27) in the kitchen, the
  switch alone in the hall.
\<close>

definition wall :: Device where
  "wall = \<lparr>dev_serialNumber = ''d073d5000003'', dev_address = ''192.168.1.22'', dev_port = 56700\<rparr>"

definition hall :: StateGroup where
  "hall = \<lparr>sg_group = ''e5f6'', sg_label = ''Hall''\<rparr>"

definition answered :: "LightState \<Rightarrow> StateGroup \<Rightarrow> int \<Rightarrow> QueryResults" where
  "answered c g p = \<lparr>colorResult = Fulfilled c, labelResult = Rejected,
     groupResult = Fulfilled g, versionResult = Fulfilled \<lparr>sv_product = Some p\<rparr>\<rparr>"

definition house :: System where
  "house =
     run [RegisterDevice lamp 1, RegisterDevice spot 1, RegisterDevice wall 1,
          QuerySettled ''d073d5000001'' (answered white_on living_room 27) 2,
          QuerySettled ''d073d5000002'' (answered white_off kitchen 27) 2,
          QuerySettled ''d073d5000003'' (answered white_off hall 70) 2]
       System_init"

text \<open>
  A sample collation for \<open>localeCompare\<close>: strings compared code unit by code unit, a
  proper prefix first.
\<close>

fun code_unit_compare :: "string \<Rightarrow> string \<Rightarrow> int" where
  "code_unit_compare [] [] = 0"
| "code_unit_compare [] (y # ys) = - 1"
| "code_unit_compare (x # xs) [] = 1"
| "code_unit_compare (x # xs) (y # ys) =
     (if (of_char x :: nat) < of_char y then - 1
      else if (of_char y :: nat) < of_char x then 1
      else code_unit_compare xs ys)"

text \<open>
  The reading of ``light-class device'' by the data model's three classes, for
  comparison with \<open>not_switch\<close>: the serial number has a record whose class is \<open>light\<close>.
\<close>

definition light_class :: "LifxStore \<Rightarrow> string \<Rightarrow> bool" where
  "light_class st sn =
     (case map_of (devices st) sn of None \<Rightarrow> False | Some d \<Rightarrow> deviceType d = Light)"

section \<open>Transport: closing with sends in flight\<close>

lemma close_closes_iff:
  "socket_closed (close t) \<longleftrightarrow> socket_closed t \<or> sendCounter t \<le> 1"
  by (simp add: close_def socketCallback_def Let_def)

lemma close_keeps_pending: "socket_pending (close t) = socket_pending t"
  by (simp add: close_def socketCallback_def Let_def)

lemma send_completed_closes_iff:
  "socket_closed (send_completed t) \<longleftrightarrow>
     socket_closed t \<or> (socketShouldClose t \<and> sendCounter t \<le> 1)"
  by (auto simp add: send_completed_def socketCallback_def Let_def)

text \<open>
  Claim C2. \<open>close()\<close> is to leave the socket open until the callback of every pending
  send has run. With exactly one datagram in flight, \<open>close()\<close> itself takes the counter
  from 1 to 0 through its call of \<open>socketCallback()\<close> and closes the socket at once,
  before the callback of that datagram has run. With two in flight the socket is closed
  by the first callback, with the second datagram still pending.
\<close>

theorem close_with_one_pending_send:
  "sendCounter (onSend Transport_init) = 1
   \<and> socket_pending (onSend Transport_init) = 1
   \<and> \<not> socket_closed (onSend Transport_init)
   \<and> socket_closed (close (onSend Transport_init))
   \<and> socket_pending (close (onSend Transport_init)) = 1
   \<and> \<not> socket_closed (close (onSend (onSend Transport_init)))
   \<and> socket_closed (send_completed (close (onSend (onSend Transport_init))))
   \<and> socket_pending (send_completed (close (onSend (onSend Transport_init)))) = 1"
  by (simp add: close_def send_completed_def socketCallback_def onSend_def Transport_init_def
      Let_def)

section \<open>Pattern scheduler: tap tempo\<close>

lemma bpm_updateConfig_only_bpm: "bpm (config (updateConfig (only_bpm b) e)) = b"
  by (simp add: updateConfig_def merge_config_def only_bpm_def stop_def Let_def)

lemma lastTapTime_updateConfig: "lastTapTime (updateConfig c e) = lastTapTime e"
  by (simp add: updateConfig_def stop_def Let_def)

lemma tapTempo_first: "lastTapTime (tapTempo t1 e) = t1"
  by (simp add: tapTempo_def Let_def)

lemma tapTempo_second:
  assumes "0 < lastTapTime e"
  shows "tapTempo now e =
    (if 200 < now - lastTapTime e \<and> now - lastTapTime e < 2000
     then updateConfig (only_bpm (real_of_int (round (60000 / real_of_int (now - lastTapTime e))))) e
     else e)\<lparr>lastTapTime := now\<rparr>"
  using assms by (simp add: tapTempo_def Let_def)

text \<open>
  Claim C8. Two consecutive calls of \<open>tapTempo()\<close>, at the clock readings \<open>t1\<close> and
  \<open>t1 + t\<close>: the second call applies \<open>updateConfig({ bpm: round(60000 / t) })\<close> exactly
  when \<open>200 < t < 2000\<close>, and otherwise leaves the engine as it was; in both cases it
  records the new tap time. At \<open>t = 1000\<close> the tempo becomes 60; at \<open>t = 2001\<close> and
  \<open>t = 199\<close> it stays what it was.
\<close>

theorem tapTempo_window:
  assumes "0 < t1"
  shows "tapTempo (t1 + t) (tapTempo t1 e) =
           (if 200 < t \<and> t < 2000
            then updateConfig (only_bpm (real_of_int (round (60000 / real_of_int t)))) (tapTempo t1 e)
            else tapTempo t1 e)\<lparr>lastTapTime := t1 + t\<rparr>
    \<and> bpm (config (tapTempo (t1 + t) (tapTempo t1 e))) =
           (if 200 < t \<and> t < 2000 then real_of_int (round (60000 / real_of_int t))
            else bpm (config (tapTempo t1 e)))
    \<and> lastTapTime (tapTempo (t1 + t) (tapTempo t1 e)) = t1 + t
    \<and> bpm (config (tapTempo (t1 + 1000) (tapTempo t1 e))) = 60
    \<and> bpm (config (tapTempo (t1 + 2001) (tapTempo t1 e))) = bpm (config (tapTempo t1 e))
    \<and> bpm (config (tapTempo (t1 + 199) (tapTempo t1 e))) = bpm (config (tapTempo t1 e))"
proof -
  have anchor: "0 < lastTapTime (tapTempo t1 e)"
    using assms by (simp add: tapTempo_first)
  have diff: "\<And>d. t1 + d - lastTapTime (tapTempo t1 e) = d"
    by (simp add: tapTempo_first)
  have full: "tapTempo (t1 + t) (tapTempo t1 e) =
           (if 200 < t \<and> t < 2000
            then updateConfig (only_bpm (real_of_int (round (60000 / real_of_int t)))) (tapTempo t1 e)
            else tapTempo t1 e)\<lparr>lastTapTime := t1 + t\<rparr>"
    by (simp only: tapTempo_second [OF anchor] diff)
  have gen: "\<And>d. bpm (config (tapTempo (t1 + d) (tapTempo t1 e))) =
           (if 200 < d \<and> d < 2000 then real_of_int (round (60000 / real_of_int d))
            else bpm (config (tapTempo t1 e)))"
    by (simp add: tapTempo_second [OF anchor] diff bpm_updateConfig_only_bpm)
  have anchored: "lastTapTime (tapTempo (t1 + t) (tapTempo t1 e)) = t1 + t"
    by (simp add: tapTempo_first)
  have at_1000: "bpm (config (tapTempo (t1 + 1000) (tapTempo t1 e))) = 60"
    by (simp add: gen)
  have at_2001: "bpm (config (tapTempo (t1 + 2001) (tapTempo t1 e))) = bpm (config (tapTempo t1 e))"
    by (simp add: gen)
  have at_199: "bpm (config (tapTempo (t1 + 199) (tapTempo t1 e))) = bpm (config (tapTempo t1 e))"
    by (simp add: gen)
  from full gen [of t] anchored at_1000 at_2001 at_199 show ?thesis
    by (intro conjI)
qed

theorem tapTempo_window_witness:
  "(0::int) < 1
   \<and> bpm (config (tapTempo (1 + 1000) (tapTempo 1 DJEngine_init))) = 60
   \<and> bpm (config (tapTempo (1 + 2001) (tapTempo 1 DJEngine_init))) = 120
   \<and> bpm (config (tapTempo (1 + 199) (tapTempo 1 DJEngine_init))) = 120
   \<and> lastTapTime (tapTempo (1 + 2001) (tapTempo 1 DJEngine_init)) = 2002"
proof -
  have h: "(0::int) < 1" by simp
  have first: "bpm (config (tapTempo 1 DJEngine_init)) = 120"
    by (simp add: tapTempo_def DJEngine_init_def Let_def)
  show ?thesis
    using tapTempo_window [OF h, of 2001 DJEngine_init] first by simp
qed

section \<open>Writes to a device record\<close>

lemma map_of_set_device:
  "map_of (devices (set_device sn f st)) k =
     (if k = sn then map_option f (map_of (devices st) sn) else map_of (devices st) k)"
  by (simp add: set_device_def map_of_map_entry split: option.splits)

lemma set_device_other [simp]:
  "groups (set_device sn f st) = groups st"
  "selectedDevices (set_device sn f st) = selectedDevices st"
  "isScanning (set_device sn f st) = isScanning st"
  by (simp_all add: set_device_def)

lemma keys_map_entry: "map fst (AList.map_entry k f xs) = map fst xs"
  by (induction xs) auto

lemma device_keys_set_device [simp]: "device_keys (set_device sn f st) = device_keys st"
  by (simp add: set_device_def device_keys_def keys_map_entry)

lemma present_set_device [simp]:
  "(map_of (devices (set_device sn f st)) k = None) = (map_of (devices st) k = None)"
  by (simp add: map_of_set_device)

lemma setStore_devices_present:
  "map_of (devices st) sn \<noteq> None \<Longrightarrow> setStore_devices sn f st = Returned (set_device sn f st)"
  by (auto simp add: setStore_devices_def)

lemma setStore_devices_absent:
  "map_of (devices st) sn = None \<Longrightarrow> setStore_devices sn f st = Threw TypeError st"
  by (simp add: setStore_devices_def)

lemmas refresh_defs =
  queryDeviceState_settle_def apply_results_def batch_update_def apply_versionResult_def
  apply_colorResult_def apply_labelResult_def apply_groupResult_def

lemmas sample_defs =
  lamp_def spot_def wall_def all_rejected_def living_room_def kitchen_def hall_def white_on_def
  white_off_def label_failed_def only_group_def color_and_group_def answered_def System_init_def

lemmas eval_defs =
  registerDevice_def queryDeviceState_start_def setStore_devices_def set_device_def
  SWITCH_PRODUCT_IDS_def

section \<open>Refresh: what a cycle writes\<close>

lemma apply_versionResult_present:
  assumes "map_of (devices st) sn \<noteq> None"
  shows "\<exists>st'. apply_versionResult sn r st = Returned st' \<and> map_of (devices st') sn \<noteq> None"
  using assms
  by (cases r) (simp_all add: apply_versionResult_def setStore_devices_present Let_def del: not_None_eq)

lemma apply_colorResult_present:
  assumes "map_of (devices st) sn \<noteq> None"
  shows "\<exists>st'. apply_colorResult sn r st = Returned st' \<and> map_of (devices st') sn \<noteq> None"
  using assms
  by (cases r)
     (simp_all add: apply_colorResult_def setStore_devices_present del: not_None_eq
        split: option.split)

lemma apply_labelResult_present:
  assumes "map_of (devices st) sn \<noteq> None"
  shows "\<exists>st'. apply_labelResult sn r st = Returned st' \<and> map_of (devices st') sn \<noteq> None"
  using assms
  by (cases r) (simp_all add: apply_labelResult_def setStore_devices_present del: not_None_eq)

lemma apply_groupResult_present:
  assumes "map_of (devices st) sn \<noteq> None"
  shows "\<exists>st'. apply_groupResult sn r st = Returned st' \<and> map_of (devices st') sn \<noteq> None"
  using assms
  by (cases r)
     (simp_all add: apply_groupResult_def setStore_devices_present Let_def del: not_None_eq
        split: option.split)

text \<open>
  With the record present the batch does not throw, whatever the four results are: the
  \<open>catch\<close> block, the only place that writes \<open>online = false\<close>, is not reached, and every
  cycle ends with \<open>online = true\<close> and \<open>lastSeen = now\<close>.
\<close>

lemma refresh_ends_online:
  assumes "map_of (devices (store s)) sn \<noteq> None"
  shows "\<exists>s' d'. queryDeviceState_settle sn rs now s = Returned s'
           \<and> map_of (devices (store s')) sn = Some d' \<and> online d' \<and> lastSeen d' = now"
proof -
  obtain st1 where 1: "apply_versionResult sn (versionResult rs) (store s) = Returned st1"
    and p1: "map_of (devices st1) sn \<noteq> None"
    using apply_versionResult_present [OF assms] by blast
  obtain st2 where 2: "apply_colorResult sn (colorResult rs) st1 = Returned st2"
    and p2: "map_of (devices st2) sn \<noteq> None"
    using apply_colorResult_present [OF p1] by blast
  obtain st3 where 3: "apply_labelResult sn (labelResult rs) st2 = Returned st3"
    and p3: "map_of (devices st3) sn \<noteq> None"
    using apply_labelResult_present [OF p2] by blast
  obtain st4 where 4: "apply_groupResult sn (groupResult rs) st3 = Returned st4"
    and p4: "map_of (devices st4) sn \<noteq> None"
    using apply_groupResult_present [OF p3] by blast
  from p4 obtain d4 where d4: "map_of (devices st4) sn = Some d4" by blast
  have "batch_update sn rs now (store s) =
          Returned (set_device sn (\<lambda>d. d\<lparr>lastSeen := now\<rparr>)
                      (set_device sn (\<lambda>d. d\<lparr>online := True\<rparr>) st4))"
    by (simp add: batch_update_def 1 2 3 4 p4 setStore_devices_present)
  then show ?thesis
    by (simp add: queryDeviceState_settle_def apply_results_def map_of_set_device d4)
qed

text \<open>
  Claim C1. A refresh whose four queries all fail is to mark the device offline and to
  leave \<open>lastSeen\<close> alone. The lamp is registered at time 1 and its four queries are
  rejected at time 2: the cycle returns with \<open>online = true\<close> and \<open>lastSeen = 2\<close>.
\<close>

theorem refresh_all_rejected_stays_online:
  "queryDeviceState_settle ''d073d5000001'' all_rejected 2 (registerDevice lamp 1 System_init)
     = Returned
         \<lparr>store = \<lparr>devices = [(''d073d5000001'',
              \<lparr>serialNumber = ''d073d5000001'', device = lamp, label = ''000001'',
               group = [], groupId = [], power = False,
               color = \<lparr>hue = 0, saturation = 0, brightness = 32768, kelvin = 3500\<rparr>,
               online = True, selected = False, lastSeen = 2,
               deviceType = Unknown, productId = 0\<rparr>)],
            groups = [], selectedDevices = [], isScanning = True\<rparr>,
          pendingQueries = {}, awaiting = [],
          sent = [(GetColorCommand, lamp), (GetLabelCommand, lamp), (GetGroupCommand, lamp),
                  (GetVersionCommand, lamp)]\<rparr>"
  by (simp add: refresh_defs eval_defs sample_defs Let_def)

text \<open>
  Claim C4. A refresh of a device with a record, in which the label query is rejected
  and the colour, group and version queries are fulfilled, returns; afterwards the record
  is the old one with the product id and the device type of the version reply, the
  colour of the colour reply and the power it carries (\<open>power > 0\<close>; the old power when
  the reply carries none), the group label and group id of the group reply,
  \<open>online = true\<close> and \<open>lastSeen = now\<close>, the label being kept; and the device is a member
  of the reported group.
\<close>

theorem refresh_label_failure_keeps_rest:
  assumes present: "map_of (devices (store s)) sn = Some d"
    and rs: "colorResult rs = Fulfilled c" "labelResult rs = Rejected"
      "groupResult rs = Fulfilled g" "versionResult rs = Fulfilled v"
  shows "\<exists>s'. queryDeviceState_settle sn rs now s = Returned s'
          \<and> map_of (devices (store s')) sn =
              Some (d\<lparr>productId := (case sv_product v of None \<Rightarrow> 0 | Some p \<Rightarrow> p),
                      deviceType :=
                        (if (case sv_product v of None \<Rightarrow> 0 | Some p \<Rightarrow> p) \<in> set SWITCH_PRODUCT_IDS
                         then Switch else Light),
                      color := \<lparr>hue = ls_hue c, saturation = ls_saturation c,
                                 brightness = ls_brightness c, kelvin = ls_kelvin c\<rparr>,
                      power := (case ls_power c of None \<Rightarrow> power d | Some p \<Rightarrow> 0 < p),
                      group := sg_label g, groupId := sg_group g,
                      online := True, lastSeen := now\<rparr>)
          \<and> group_member (store s') (sg_group g) sn"
proof -
  from present have ne: "map_of (devices (store s)) sn \<noteq> None" by simp
  show ?thesis
  proof (cases "map_of (groups (store s)) (sg_group g)")
    case None
    then show ?thesis using present ne rs
      by (simp add: refresh_defs setStore_devices_present Let_def map_of_set_device
          group_member_def update_conv' split: option.split)
  next
    case (Some g0)
    then show ?thesis using present ne rs
      by (simp add: refresh_defs setStore_devices_present Let_def map_of_set_device
          group_member_def map_of_map_entry split: option.split)
  qed
qed

theorem refresh_label_failure_keeps_rest_witness:
  "\<exists>s'. queryDeviceState_settle ''d073d5000001'' label_failed 2 (registerDevice lamp 1 System_init)
           = Returned s'
      \<and> map_of (devices (store s')) ''d073d5000001'' =
          Some \<lparr>serialNumber = ''d073d5000001'', device = lamp, label = ''000001'',
                group = ''Living Room'', groupId = ''a1b2'', power = True,
                color = \<lparr>hue = 0, saturation = 0, brightness = 65535, kelvin = 2700\<rparr>,
                online = True, selected = False, lastSeen = 2,
                deviceType = Light, productId = 27\<rparr>
      \<and> group_member (store s') ''a1b2'' ''d073d5000001''"
proof -
  have present: "map_of (devices (store (registerDevice lamp 1 System_init))) ''d073d5000001'' =
      Some \<lparr>serialNumber = ''d073d5000001'', device = lamp, label = ''000001'',
                group = [], groupId = [], power = False,
                color = \<lparr>hue = 0, saturation = 0, brightness = 32768, kelvin = 3500\<rparr>,
                online = True, selected = False, lastSeen = 1,
                deviceType = Unknown, productId = 0\<rparr>"
    by (simp add: eval_defs sample_defs Let_def)
  have rs: "colorResult label_failed = Fulfilled white_on" "labelResult label_failed = Rejected"
    "groupResult label_failed = Fulfilled living_room"
    "versionResult label_failed = Fulfilled \<lparr>sv_product = Some 27\<rparr>"
    by (simp_all add: label_failed_def)
  show ?thesis
    using refresh_label_failure_keeps_rest [OF present rs, of 2]
    by (simp add: white_on_def living_room_def SWITCH_PRODUCT_IDS_def)
qed

section \<open>Registering a device again\<close>

text \<open>
  Claim C9, as stated: registering a known device again leaves \<open>lastSeen\<close> as it was.
  The lamp registered at time 1 and again at time 2 has \<open>lastSeen = 2\<close>.
\<close>

theorem registerDevice_again_moves_lastSeen:
  "map_option lastSeen
     (map_of (devices (store (registerDevice lamp 1 System_init))) ''d073d5000001'') = Some 1
   \<and> map_option lastSeen
     (map_of (devices (store (registerDevice lamp 2 (registerDevice lamp 1 System_init))))
        ''d073d5000001'') = Some 2"
  by (simp add: eval_defs sample_defs Let_def)

text \<open>
  Claim C9, amended. Registering a device whose serial number has a record writes the
  device handle and \<open>lastSeen\<close> of that record and nothing else: every other field of the
  record, every other record, the keys of the store and their order, the groups, the
  selection list and the scanning flag are as before.
\<close>

theorem registerDevice_again_frame:
  assumes "map_of (devices (store s)) (dev_serialNumber dev) = Some d"
  shows "map_of (devices (store (registerDevice dev now s))) =
           (map_of (devices (store s)))(dev_serialNumber dev \<mapsto> d\<lparr>device := dev, lastSeen := now\<rparr>)
       \<and> device_keys (store (registerDevice dev now s)) = device_keys (store s)
       \<and> groups (store (registerDevice dev now s)) = groups (store s)
       \<and> selectedDevices (store (registerDevice dev now s)) = selectedDevices (store s)
       \<and> isScanning (store (registerDevice dev now s)) = isScanning (store s)"
proof -
  have st: "store (registerDevice dev now s) =
      set_device (dev_serialNumber dev) (\<lambda>d. d\<lparr>lastSeen := now\<rparr>)
        (set_device (dev_serialNumber dev) (\<lambda>d. d\<lparr>device := dev\<rparr>) (store s))"
    using assms by (simp add: registerDevice_def queryDeviceState_start_def Let_def)
  have "map_of (devices (store (registerDevice dev now s))) k =
           ((map_of (devices (store s)))(dev_serialNumber dev \<mapsto> d\<lparr>device := dev, lastSeen := now\<rparr>)) k"
    for k
    using assms by (simp add: st map_of_set_device)
  then have "map_of (devices (store (registerDevice dev now s))) =
           (map_of (devices (store s)))(dev_serialNumber dev \<mapsto> d\<lparr>device := dev, lastSeen := now\<rparr>)"
    by (rule ext)
  then show ?thesis by (simp add: st)
qed

theorem registerDevice_again_frame_witness:
  "map_of (devices (store (registerDevice spot 2 (registerDevice lamp 1 System_init))))
       ''d073d5000001''
     = map_of (devices (store (registerDevice lamp 1 System_init))) ''d073d5000001''
   \<and> map_of (devices (store (registerDevice (lamp\<lparr>dev_address := ''192.168.1.99''\<rparr>) 2
                                 (registerDevice lamp 1 System_init))))
      = (map_of (devices (store (registerDevice lamp 1 System_init))))
          (''d073d5000001'' \<mapsto>
             \<lparr>serialNumber = ''d073d5000001'', device = lamp\<lparr>dev_address := ''192.168.1.99''\<rparr>,
              label = ''000001'', group = [], groupId = [], power = False,
              color = \<lparr>hue = 0, saturation = 0, brightness = 32768, kelvin = 3500\<rparr>,
              online = True, selected = False, lastSeen = 2,
              deviceType = Unknown, productId = 0\<rparr>)
   \<and> device_keys (store (registerDevice (lamp\<lparr>dev_address := ''192.168.1.99''\<rparr>) 2
                                 (registerDevice lamp 1 System_init))) = [''d073d5000001'']"
proof -
  have present: "map_of (devices (store (registerDevice lamp 1 System_init)))
      (dev_serialNumber (lamp\<lparr>dev_address := ''192.168.1.99''\<rparr>)) =
      Some \<lparr>serialNumber = ''d073d5000001'', device = lamp, label = ''000001'',
                group = [], groupId = [], power = False,
                color = \<lparr>hue = 0, saturation = 0, brightness = 32768, kelvin = 3500\<rparr>,
                online = True, selected = False, lastSeen = 1,
                deviceType = Unknown, productId = 0\<rparr>"
    by (simp add: eval_defs sample_defs Let_def)
  have keys: "device_keys (store (registerDevice lamp 1 System_init)) = [''d073d5000001'']"
    by (simp add: eval_defs sample_defs device_keys_def Let_def)
  have other: "map_of (devices (store (registerDevice spot 2 (registerDevice lamp 1 System_init))))
       ''d073d5000001''
     = map_of (devices (store (registerDevice lamp 1 System_init))) ''d073d5000001''"
    by (simp add: eval_defs sample_defs Let_def)
  show ?thesis
    using registerDevice_again_frame [OF present, of 2] keys other
    by (simp add: lamp_def)
qed

section \<open>Selection of a group\<close>

lemma two_lamps_store:
  "store two_lamps =
     \<lparr>devices =
        [(''d073d5000001'',
          \<lparr>serialNumber = ''d073d5000001'', device = lamp, label = ''000001'',
           group = ''Living Room'', groupId = ''a1b2'', power = True,
           color = \<lparr>hue = 0, saturation = 0, brightness = 65535, kelvin = 2700\<rparr>,
           online = True, selected = False, lastSeen = 2,
           deviceType = Unknown, productId = 0\<rparr>),
         (''d073d5000002'',
          \<lparr>serialNumber = ''d073d5000002'', device = spot, label = ''000002'',
           group = ''Living Room'', groupId = ''a1b2'', power = False,
           color = \<lparr>hue = 0, saturation = 0, brightness = 65535, kelvin = 2700\<rparr>,
           online = True, selected = False, lastSeen = 2,
           deviceType = Unknown, productId = 0\<rparr>)],
      groups =
        [(''a1b2'', \<lparr>g_id = ''a1b2'', g_label = ''Living Room'',
            g_devices = [''d073d5000001'', ''d073d5000002''], g_expanded = True\<rparr>)],
      selectedDevices = [], isScanning = True\<rparr>"
  by (simp add: two_lamps_def run_def refresh_defs eval_defs sample_defs Let_def)

lemma select_if_online_other [simp]:
  "groups (select_if_online v sn st) = groups st"
  "device_keys (select_if_online v sn st) = device_keys st"
  "isScanning (select_if_online v sn st) = isScanning st"
  by (simp_all add: select_if_online_def)

lemma fold_select_if_online_other [simp]:
  "groups (fold (select_if_online v) xs st) = groups st"
  "device_keys (fold (select_if_online v) xs st) = device_keys st"
  "isScanning (fold (select_if_online v) xs st) = isScanning st"
  by (induction xs arbitrary: st) simp_all

lemma map_of_select_if_online:
  "map_of (devices (select_if_online v sn st)) k =
     (case map_of (devices st) k of
        None \<Rightarrow> None
      | Some d \<Rightarrow> if k = sn \<and> online d then Some (d\<lparr>selected := v\<rparr>) else Some d)"
  by (simp add: select_if_online_def is_online_def map_of_set_device split: option.splits)

lemma map_of_fold_select_if_online:
  "map_of (devices (fold (select_if_online v) xs st)) k =
     (case map_of (devices st) k of
        None \<Rightarrow> None
      | Some d \<Rightarrow> if k \<in> set xs \<and> online d then Some (d\<lparr>selected := v\<rparr>) else Some d)"
  by (induction xs arbitrary: st) (auto simp add: map_of_select_if_online split: option.splits)

lemma updateSelectedList_other [simp]:
  "devices (updateSelectedList st) = devices st"
  "groups (updateSelectedList st) = groups st"
  "device_keys (updateSelectedList st) = device_keys st"
  "isScanning (updateSelectedList st) = isScanning st"
  by (simp_all add: updateSelectedList_def device_keys_def)

lemma selectGroup_other [simp]:
  "groups (selectGroup gid st) = groups st"
  "device_keys (selectGroup gid st) = device_keys st"
  "isScanning (selectGroup gid st) = isScanning st"
  by (simp_all add: selectGroup_def Let_def split: option.split)

lemma map_of_selectGroup:
  assumes "map_of (groups st) gid = Some grp"
  shows "map_of (devices (selectGroup gid st)) k =
     (case map_of (devices st) k of
        None \<Rightarrow> None
      | Some d \<Rightarrow>
          if k \<in> set (g_devices grp) \<and> online d
          then Some (d\<lparr>selected := \<not> list_all (is_selected st) (g_devices grp)\<rparr>) else Some d)"
  using assms by (simp add: selectGroup_def Let_def map_of_fold_select_if_online)

lemma is_selected_updateSelectedList [simp]:
  "is_selected (updateSelectedList st) = is_selected st"
  by (simp add: fun_eq_iff is_selected_def)

lemma selectedDevices_updateSelectedList:
  "selectedDevices (updateSelectedList st) = filter (is_selected st) (device_keys st)"
  by (simp add: updateSelectedList_def)

lemma selectedDevices_selectGroup:
  assumes "map_of (groups st) gid = Some grp"
  shows "selectedDevices (selectGroup gid st) =
           filter (is_selected (selectGroup gid st)) (device_keys st)"
  using assms
  by (simp add: selectGroup_def Let_def selectedDevices_updateSelectedList)

text \<open>
  Claim C5, amended. For a group whose members are all online and, before the first
  call, either all selected or all unselected, two calls of \<open>selectGroup\<close> in a row
  bring every record back to what it was, with the same keys and groups, and the
  selection list is again the list of the records flagged selected. The first call
  flips the members: it selects them when none was selected and deselects them when all
  were.
\<close>

theorem selectGroup_twice:
  assumes grp: "map_of (groups st) gid = Some grp"
    and on: "list_all (is_online st) (g_devices grp)"
    and uniform: "list_all (is_selected st) (g_devices grp)
                  \<or> list_all (\<lambda>sn. \<not> is_selected st sn) (g_devices grp)"
  shows "map_of (devices (selectGroup gid (selectGroup gid st))) = map_of (devices st)
       \<and> device_keys (selectGroup gid (selectGroup gid st)) = device_keys st
       \<and> groups (selectGroup gid (selectGroup gid st)) = groups st
       \<and> selectedDevices (selectGroup gid (selectGroup gid st)) =
           filter (is_selected st) (device_keys st)
       \<and> list_all (\<lambda>sn. is_selected (selectGroup gid st) sn
                        = (\<not> list_all (is_selected st) (g_devices grp))) (g_devices grp)"
proof -
  let ?M = "g_devices grp"
  let ?st1 = "selectGroup gid st"
  let ?a0 = "list_all (is_selected st) ?M"
  have grp1: "map_of (groups ?st1) gid = Some grp" using grp by simp
  have sel1: "is_selected ?st1 k = (if k \<in> set ?M then \<not> ?a0 else is_selected st k)" for k
    using on by (auto simp add: is_selected_def is_online_def map_of_selectGroup [OF grp]
        list_all_iff split: option.splits)
  have a1: "list_all (is_selected ?st1) ?M = (?M = [] \<or> \<not> ?a0)"
    by (cases ?M) (auto simp add: sel1 list_all_iff)
  have restored: "map_of (devices (selectGroup gid ?st1)) k = map_of (devices st) k" for k
  proof (cases "map_of (devices st) k")
    case None
    then show ?thesis
      by (simp add: map_of_selectGroup [OF grp1] map_of_selectGroup [OF grp])
  next
    case (Some d)
    show ?thesis
    proof (cases "k \<in> set ?M \<and> online d")
      case False
      then show ?thesis using Some
        by (auto simp add: map_of_selectGroup [OF grp1] map_of_selectGroup [OF grp])
    next
      case True
      then have ne: "?M \<noteq> []" by auto
      from True uniform Some have "selected d = ?a0"
        by (auto simp add: list_all_iff is_selected_def)
      then show ?thesis using Some True ne
        by (simp add: map_of_selectGroup [OF grp1] map_of_selectGroup [OF grp] a1)
    qed
  qed
  then have maps: "map_of (devices (selectGroup gid ?st1)) = map_of (devices st)"
    by (rule ext)
  then have "is_selected (selectGroup gid ?st1) = is_selected st"
    by (simp add: is_selected_def fun_eq_iff)
  then have "selectedDevices (selectGroup gid ?st1) = filter (is_selected st) (device_keys st)"
    by (simp add: selectedDevices_selectGroup [OF grp1])
  moreover have "list_all (\<lambda>sn. is_selected ?st1 sn = (\<not> ?a0)) ?M"
    by (simp add: list_all_iff sel1)
  ultimately show ?thesis using maps by simp
qed


lemma lamp_selected_store:
  "store lamp_selected =
     \<lparr>devices =
        [(''d073d5000001'',
          \<lparr>serialNumber = ''d073d5000001'', device = lamp, label = ''000001'',
           group = ''Living Room'', groupId = ''a1b2'', power = True,
           color = \<lparr>hue = 0, saturation = 0, brightness = 65535, kelvin = 2700\<rparr>,
           online = True, selected = True, lastSeen = 2,
           deviceType = Unknown, productId = 0\<rparr>),
         (''d073d5000002'',
          \<lparr>serialNumber = ''d073d5000002'', device = spot, label = ''000002'',
           group = ''Living Room'', groupId = ''a1b2'', power = False,
           color = \<lparr>hue = 0, saturation = 0, brightness = 65535, kelvin = 2700\<rparr>,
           online = True, selected = False, lastSeen = 2,
           deviceType = Unknown, productId = 0\<rparr>)],
      groups =
        [(''a1b2'', \<lparr>g_id = ''a1b2'', g_label = ''Living Room'',
            g_devices = [''d073d5000001'', ''d073d5000002''], g_expanded = True\<rparr>)],
      selectedDevices = [''d073d5000001''], isScanning = True\<rparr>"
  by (simp add: lamp_selected_def run_def two_lamps_store toggleSelect_def setStore_devices_def
      set_device_def updateSelectedList_def device_keys_def is_selected_def)

lemmas select_eval =
  selectGroup_def select_if_online_def set_device_def updateSelectedList_def device_keys_def
  is_selected_def is_online_def Let_def

text \<open>
  Claim C5, as stated: for a group whose members are all online, two calls of
  \<open>selectGroup\<close> bring every member back to its selected state. In the living room
  both members are online and only the lamp is selected; the first call selects both,
  the second deselects both, and the lamp ends up deselected.
\<close>

theorem selectGroup_twice_partial_selection:
  "map_of (groups (store lamp_selected)) ''a1b2'' =
     Some \<lparr>g_id = ''a1b2'', g_label = ''Living Room'',
           g_devices = [''d073d5000001'', ''d073d5000002''], g_expanded = True\<rparr>
   \<and> is_online (store lamp_selected) ''d073d5000001''
   \<and> is_online (store lamp_selected) ''d073d5000002''
   \<and> is_selected (store lamp_selected) ''d073d5000001''
   \<and> \<not> is_selected (selectGroup ''a1b2'' (selectGroup ''a1b2'' (store lamp_selected)))
         ''d073d5000001''"
  by (simp add: lamp_selected_store select_eval)

theorem selectGroup_twice_witness:
  "map_of (groups (store two_lamps)) ''a1b2'' =
     Some \<lparr>g_id = ''a1b2'', g_label = ''Living Room'',
           g_devices = [''d073d5000001'', ''d073d5000002''], g_expanded = True\<rparr>
   \<and> list_all (is_online (store two_lamps)) [''d073d5000001'', ''d073d5000002'']
   \<and> list_all (\<lambda>sn. \<not> is_selected (store two_lamps) sn) [''d073d5000001'', ''d073d5000002'']
   \<and> map_of (devices (selectGroup ''a1b2'' (selectGroup ''a1b2'' (store two_lamps))))
       = map_of (devices (store two_lamps))
   \<and> selectedDevices (selectGroup ''a1b2'' (selectGroup ''a1b2'' (store two_lamps))) = []
   \<and> selectedDevices (selectGroup ''a1b2'' (store two_lamps)) = [''d073d5000001'', ''d073d5000002'']"
proof -
  let ?grp = "\<lparr>g_id = ''a1b2'', g_label = ''Living Room'',
           g_devices = [''d073d5000001'', ''d073d5000002''], g_expanded = True\<rparr>"
  have grp: "map_of (groups (store two_lamps)) ''a1b2'' = Some ?grp"
    by (simp add: two_lamps_store)
  have on: "list_all (is_online (store two_lamps)) (g_devices ?grp)"
    by (simp add: two_lamps_store is_online_def)
  have none: "list_all (\<lambda>sn. \<not> is_selected (store two_lamps) sn) (g_devices ?grp)"
    by (simp add: two_lamps_store is_selected_def)
  have first: "selectedDevices (selectGroup ''a1b2'' (store two_lamps))
                 = [''d073d5000001'', ''d073d5000002'']"
    by (simp add: two_lamps_store select_eval)
  have sel: "filter (is_selected (store two_lamps)) (device_keys (store two_lamps)) = []"
    by (simp add: two_lamps_store is_selected_def device_keys_def)
  from selectGroup_twice [OF grp on disjI2 [OF none]] grp on none first sel
  show ?thesis by simp
qed

section \<open>Power\<close>

lemma setPower_one_other [simp]:
  "groups (store (setPower_one ok on dur sn s)) = groups (store s)"
  "selectedDevices (store (setPower_one ok on dur sn s)) = selectedDevices (store s)"
  "device_keys (store (setPower_one ok on dur sn s)) = device_keys (store s)"
  "isScanning (store (setPower_one ok on dur sn s)) = isScanning (store s)"
  "pendingQueries (setPower_one ok on dur sn s) = pendingQueries s"
  "awaiting (setPower_one ok on dur sn s) = awaiting s"
  by (simp_all add: setPower_one_def Let_def split: option.split)

lemma fold_setPower_one_other [simp]:
  "groups (store (fold (setPower_one ok on dur) xs s)) = groups (store s)"
  "selectedDevices (store (fold (setPower_one ok on dur) xs s)) = selectedDevices (store s)"
  "device_keys (store (fold (setPower_one ok on dur) xs s)) = device_keys (store s)"
  "isScanning (store (fold (setPower_one ok on dur) xs s)) = isScanning (store s)"
  "pendingQueries (fold (setPower_one ok on dur) xs s) = pendingQueries s"
  "awaiting (fold (setPower_one ok on dur) xs s) = awaiting s"
  by (induction xs arbitrary: s) simp_all














section \<open>Grouped read views\<close>

lemma set_insert_sorted: "set (insert_sorted cmp x ys) = insert x (set ys)"
  by (induction ys) auto

lemma mset_insert_sorted: "mset (insert_sorted cmp x ys) = add_mset x (mset ys)"
  by (induction ys) auto

lemma mset_array_sort: "mset (array_sort cmp xs) = mset xs"
  by (induction xs) (simp_all add: array_sort_def mset_insert_sorted)

lemma set_array_sort: "set (array_sort cmp xs) = set xs"
  by (induction xs) (simp_all add: array_sort_def set_insert_sorted)

lemma sorted_insert_sorted:
  assumes tr: "\<And>a b c. cmp a b \<le> 0 \<Longrightarrow> cmp b c \<le> 0 \<Longrightarrow> cmp a c \<le> 0"
    and tot: "\<And>y. y \<in> set ys \<Longrightarrow> cmp x y \<le> 0 \<or> cmp y x \<le> 0"
    and srt: "sorted_wrt (\<lambda>a b. cmp a b \<le> 0) ys"
  shows "sorted_wrt (\<lambda>a b. cmp a b \<le> 0) (insert_sorted cmp x ys)"
  using tot srt
proof (induction ys)
  case Nil
  then show ?case by simp
next
  case (Cons y ys)
  show ?case
  proof (cases "cmp x y \<le> 0")
    case True
    then have "cmp x z \<le> 0" if "z \<in> set ys" for z
      using Cons.prems(2) that tr by auto
    with True Cons.prems(2) show ?thesis by simp
  next
    case False
    then have yx: "cmp y x \<le> 0" using Cons.prems(1) [of y] by simp
    have "sorted_wrt (\<lambda>a b. cmp a b \<le> 0) (insert_sorted cmp x ys)"
      using Cons.IH Cons.prems by simp
    with False yx Cons.prems(2) show ?thesis
      by (auto simp add: set_insert_sorted)
  qed
qed

text \<open>
  The sort puts the list in order when the comparator is transitive and compares every
  two entries at different positions one way or the other.
\<close>

lemma sorted_array_sort:
  assumes tr: "\<And>a b c. cmp a b \<le> 0 \<Longrightarrow> cmp b c \<le> 0 \<Longrightarrow> cmp a c \<le> 0"
    and tot: "sorted_wrt (\<lambda>x y. cmp x y \<le> 0 \<or> cmp y x \<le> 0) xs"
  shows "sorted_wrt (\<lambda>a b. cmp a b \<le> 0) (array_sort cmp xs)"
  using tot
proof (induction xs)
  case Nil
  then show ?case by (simp add: array_sort_def)
next
  case (Cons x xs)
  have step: "array_sort cmp (x # xs) = insert_sorted cmp x (array_sort cmp xs)"
    by (simp add: array_sort_def)
  show ?case unfolding step
  proof (rule sorted_insert_sorted)
    show "cmp a b \<le> 0 \<Longrightarrow> cmp b c \<le> 0 \<Longrightarrow> cmp a c \<le> 0" for a b c by (rule tr)
    show "cmp x y \<le> 0 \<or> cmp y x \<le> 0" if "y \<in> set (array_sort cmp xs)" for y
      using that Cons.prems by (simp add: set_array_sort)
    show "sorted_wrt (\<lambda>a b. cmp a b \<le> 0) (array_sort cmp xs)"
      using Cons.IH Cons.prems by simp
  qed
qed

lemma group_compare_le:
  "group_compare lc a b \<le> 0 \<longleftrightarrow>
     g_id a \<noteq> ''ungrouped'' \<and> (g_id b = ''ungrouped'' \<or> lc (g_label a) (g_label b) \<le> 0)"
  by (simp add: group_compare_def)

lemma distinct_ids_sorted_wrt:
  "distinct (map g_id gs) \<Longrightarrow> sorted_wrt (\<lambda>a b. g_id a \<noteq> g_id b) gs"
  by (induction gs) auto

lemma hasLights_iff: "hasLights st g \<longleftrightarrow> (\<exists>sn\<in>set (g_devices g). not_switch st sn)"
  by (simp add: hasLights_def list_ex_iff)

lemma set_map_filter: "set (List.map_filter f xs) = {y. \<exists>x\<in>set xs. f x = Some y}"
  by (induction xs) (auto simp add: List.map_filter_simps split: option.splits)

text \<open>
  Claim C7, amended. Let \<open>localeCompare\<close> be a consistent comparator (any two strings
  compare one way or the other, transitively) and let the groups have distinct ids, as
  the values of an object keyed by id do. Then \<open>getSortedGroups()\<close> returns exactly the
  groups with at least one member that has a record and is not a switch (its class is
  light or unknown), each once; in the result no group comes after the group with id
  \<open>ungrouped\<close>, and the groups before it are in the order of their labels.
  \<open>getGroupDevices(id)\<close> returns exactly the records of the members of the group that
  are not switches, in the order of their labels, and nothing for an unknown group.
\<close>

theorem grouped_views:
  assumes total: "\<forall>a b. lc a b \<le> 0 \<or> lc b a \<le> 0"
    and trans: "\<forall>a b c. lc a b \<le> 0 \<longrightarrow> lc b c \<le> 0 \<longrightarrow> lc a c \<le> 0"
    and ids: "distinct (map (g_id \<circ> snd) (groups st))"
  shows "set (getSortedGroups lc st) =
           {g \<in> snd ` set (groups st). \<exists>sn\<in>set (g_devices g). not_switch st sn}
       \<and> mset (getSortedGroups lc st) = mset (filter (hasLights st) (map snd (groups st)))
       \<and> sorted_wrt (\<lambda>a b. g_id a \<noteq> ''ungrouped''
                            \<and> (g_id b = ''ungrouped'' \<or> lc (g_label a) (g_label b) \<le> 0))
           (getSortedGroups lc st)
       \<and> set (getGroupDevices lc gid st) =
           (case map_of (groups st) gid of
              None \<Rightarrow> {}
            | Some grp \<Rightarrow> {d. \<exists>sn\<in>set (g_devices grp).
                               map_of (devices st) sn = Some d \<and> deviceType d \<noteq> Switch})
       \<and> sorted_wrt (\<lambda>a b. lc (label a) (label b) \<le> 0) (getGroupDevices lc gid st)"
proof -
  let ?gs = "filter (hasLights st) (map snd (groups st))"
  have members: "set (getSortedGroups lc st) =
           {g \<in> snd ` set (groups st). \<exists>sn\<in>set (g_devices g). not_switch st sn}"
    by (auto simp add: getSortedGroups_def set_array_sort hasLights_iff)
  have once: "mset (getSortedGroups lc st) = mset ?gs"
    by (simp add: getSortedGroups_def mset_array_sort)
  have "distinct (map g_id ?gs)"
    using ids by (simp add: distinct_map_filter)
  then have "sorted_wrt (\<lambda>a b. g_id a \<noteq> g_id b) ?gs"
    by (rule distinct_ids_sorted_wrt)
  then have comparable:
    "sorted_wrt (\<lambda>x y. group_compare lc x y \<le> 0 \<or> group_compare lc y x \<le> 0) ?gs"
  proof (rule sorted_wrt_mono_rel [rotated])
    fix x y :: GroupState assume "g_id x \<noteq> g_id y"
    then show "group_compare lc x y \<le> 0 \<or> group_compare lc y x \<le> 0"
      using total by (auto simp add: group_compare_le)
  qed
  have "sorted_wrt (\<lambda>a b. group_compare lc a b \<le> 0) (array_sort (group_compare lc) ?gs)"
  proof (rule sorted_array_sort [OF _ comparable])
    fix a b c :: GroupState
    assume "group_compare lc a b \<le> 0" and "group_compare lc b c \<le> 0"
    then show "group_compare lc a c \<le> 0"
      using trans by (auto simp add: group_compare_le)
  qed
  then have ordered: "sorted_wrt (\<lambda>a b. g_id a \<noteq> ''ungrouped''
                            \<and> (g_id b = ''ungrouped'' \<or> lc (g_label a) (g_label b) \<le> 0))
           (getSortedGroups lc st)"
    by (simp add: getSortedGroups_def group_compare_le)
  have devs: "set (getGroupDevices lc gid st) =
           (case map_of (groups st) gid of
              None \<Rightarrow> {}
            | Some grp \<Rightarrow> {d. \<exists>sn\<in>set (g_devices grp).
                               map_of (devices st) sn = Some d \<and> deviceType d \<noteq> Switch})"
    by (auto simp add: getGroupDevices_def set_array_sort set_map_filter split: option.split)
  have devs_ordered: "sorted_wrt (\<lambda>a b. lc (label a) (label b) \<le> 0) (getGroupDevices lc gid st)"
  proof (cases "map_of (groups st) gid")
    case None
    then show ?thesis by (simp add: getGroupDevices_def)
  next
    case (Some grp)
    let ?ds = "filter (\<lambda>d. deviceType d \<noteq> Switch)
                 (List.map_filter (\<lambda>sn. map_of (devices st) sn) (g_devices grp))"
    have "sorted_wrt (\<lambda>x y. lc (label x) (label y) \<le> 0 \<or> lc (label y) (label x) \<le> 0) ?ds"
    proof (rule sorted_wrt_mono_rel [of ?ds "\<lambda>x y. True"])
      show "lc (label x) (label y) \<le> 0 \<or> lc (label y) (label x) \<le> 0" for x y :: DeviceState
        using total by blast
      show "sorted_wrt (\<lambda>x y. True) ?ds" by simp
    qed
    then have "sorted_wrt (\<lambda>a b. lc (label a) (label b) \<le> 0)
                 (array_sort (\<lambda>a b. lc (label a) (label b)) ?ds)"
    proof (rule sorted_array_sort [rotated])
      fix a b c :: DeviceState
      assume "lc (label a) (label b) \<le> 0" and "lc (label b) (label c) \<le> 0"
      then show "lc (label a) (label c) \<le> 0" using trans by blast
    qed
    then show ?thesis using Some by (simp add: getGroupDevices_def)
  qed
  from members once ordered devs devs_ordered show ?thesis by blast
qed

lemma code_unit_compare_total: "code_unit_compare a b \<le> 0 \<or> code_unit_compare b a \<le> 0"
  by (induction a b rule: code_unit_compare.induct) auto

lemma code_unit_compare_trans:
  "code_unit_compare a b \<le> 0 \<Longrightarrow> code_unit_compare b c \<le> 0 \<Longrightarrow> code_unit_compare a c \<le> 0"
proof (induction a arbitrary: b c)
  case Nil
  then show ?case by (cases c) auto
next
  case (Cons x a)
  then show ?case
    by (cases b; cases c) (auto split: if_splits)
qed


lemma house_store:
  "store house =
     \<lparr>devices =
        [(''d073d5000001'',
          \<lparr>serialNumber = ''d073d5000001'', device = lamp, label = ''000001'',
           group = ''Living Room'', groupId = ''a1b2'', power = True,
           color = \<lparr>hue = 0, saturation = 0, brightness = 65535, kelvin = 2700\<rparr>,
           online = True, selected = False, lastSeen = 2,
           deviceType = Light, productId = 27\<rparr>),
         (''d073d5000002'',
          \<lparr>serialNumber = ''d073d5000002'', device = spot, label = ''000002'',
           group = ''Kitchen'', groupId = ''c3d4'', power = False,
           color = \<lparr>hue = 0, saturation = 0, brightness = 65535, kelvin = 2700\<rparr>,
           online = True, selected = False, lastSeen = 2,
           deviceType = Light, productId = 27\<rparr>),
         (''d073d5000003'',
          \<lparr>serialNumber = ''d073d5000003'', device = wall, label = ''000003'',
           group = ''Hall'', groupId = ''e5f6'', power = False,
           color = \<lparr>hue = 0, saturation = 0, brightness = 65535, kelvin = 2700\<rparr>,
           online = True, selected = False, lastSeen = 2,
           deviceType = Switch, productId = 70\<rparr>)],
      groups =
        [(''a1b2'', \<lparr>g_id = ''a1b2'', g_label = ''Living Room'',
            g_devices = [''d073d5000001''], g_expanded = True\<rparr>),
         (''c3d4'', \<lparr>g_id = ''c3d4'', g_label = ''Kitchen'',
            g_devices = [''d073d5000002''], g_expanded = True\<rparr>),
         (''e5f6'', \<lparr>g_id = ''e5f6'', g_label = ''Hall'',
            g_devices = [''d073d5000003''], g_expanded = True\<rparr>)],
      selectedDevices = [], isScanning = True\<rparr>"
  by (simp add: house_def run_def refresh_defs eval_defs sample_defs Let_def)

lemmas view_eval =
  getSortedGroups_def getGroupDevices_def hasLights_def not_switch_def group_compare_def
  array_sort_def List.map_filter_simps

text \<open>
  Claim C7, as stated: the views return the groups with a light-class member, and the
  light-class members of a group. The two devices of the living room were refreshed with
  their version query unanswered, so their class is still \<open>unknown\<close>: neither is of class
  light, yet \<open>getSortedGroups()\<close> returns the living room and \<open>getGroupDevices\<close> returns
  both.
\<close>

theorem views_count_unclassified_devices:
  "getSortedGroups code_unit_compare (store two_lamps) =
     [\<lparr>g_id = ''a1b2'', g_label = ''Living Room'',
       g_devices = [''d073d5000001'', ''d073d5000002''], g_expanded = True\<rparr>]
   \<and> \<not> light_class (store two_lamps) ''d073d5000001''
   \<and> \<not> light_class (store two_lamps) ''d073d5000002''
   \<and> map serialNumber (getGroupDevices code_unit_compare ''a1b2'' (store two_lamps)) =
       [''d073d5000001'', ''d073d5000002'']
   \<and> map deviceType (getGroupDevices code_unit_compare ''a1b2'' (store two_lamps)) =
       [Unknown, Unknown]"
  by (simp add: two_lamps_store view_eval light_class_def)

theorem grouped_views_witness:
  "(\<forall>a b. code_unit_compare a b \<le> 0 \<or> code_unit_compare b a \<le> 0)
   \<and> distinct (map (g_id \<circ> snd) (groups (store house)))
   \<and> map g_label (getSortedGroups code_unit_compare (store house)) = [''Kitchen'', ''Living Room'']
   \<and> map serialNumber (getGroupDevices code_unit_compare ''a1b2'' (store house)) = [''d073d5000001'']
   \<and> getGroupDevices code_unit_compare ''e5f6'' (store house) = []
   \<and> set (getSortedGroups code_unit_compare (store house)) =
        {g \<in> snd ` set (groups (store house)).
           \<exists>sn\<in>set (g_devices g). not_switch (store house) sn}
   \<and> sorted_wrt (\<lambda>a b. g_id a \<noteq> ''ungrouped''
          \<and> (g_id b = ''ungrouped'' \<or> code_unit_compare (g_label a) (g_label b) \<le> 0))
        (getSortedGroups code_unit_compare (store house))
   \<and> sorted_wrt (\<lambda>a b. code_unit_compare (label a) (label b) \<le> 0)
        (getGroupDevices code_unit_compare ''a1b2'' (store house))"
proof -
  have total: "\<forall>a b. code_unit_compare a b \<le> 0 \<or> code_unit_compare b a \<le> 0"
    by (simp add: code_unit_compare_total)
  have trans: "\<forall>a b c. code_unit_compare a b \<le> 0 \<longrightarrow> code_unit_compare b c \<le> 0
         \<longrightarrow> code_unit_compare a c \<le> 0"
    using code_unit_compare_trans by blast
  have ids: "distinct (map (g_id \<circ> snd) (groups (store house)))"
    by (simp add: house_store)
  have sorted_groups:
    "map g_label (getSortedGroups code_unit_compare (store house)) = [''Kitchen'', ''Living Room'']"
    by (simp add: house_store view_eval)
  have living: "map serialNumber (getGroupDevices code_unit_compare ''a1b2'' (store house))
                  = [''d073d5000001'']"
    by (simp add: house_store view_eval)
  have hall: "getGroupDevices code_unit_compare ''e5f6'' (store house) = []"
    by (simp add: house_store view_eval)
  from grouped_views [OF total trans ids, of "''a1b2''"] total trans ids sorted_groups living hall
  show ?thesis by blast
qed

section \<open>Runs of the store\<close>

lemma setColor_one_other [simp]:
  "groups (store (setColor_one ok hsbk dur sn s)) = groups (store s)"
  "pendingQueries (setColor_one ok hsbk dur sn s) = pendingQueries s"
  "awaiting (setColor_one ok hsbk dur sn s) = awaiting s"
  by (simp_all add: setColor_one_def Let_def split: option.split)

lemma fold_setColor_one_other [simp]:
  "groups (store (fold (setColor_one ok hsbk dur) xs s)) = groups (store s)"
  "pendingQueries (fold (setColor_one ok hsbk dur) xs s) = pendingQueries s"
  "awaiting (fold (setColor_one ok hsbk dur) xs s) = awaiting s"
  by (induction xs arbitrary: s) simp_all

lemma setColor_other [simp]:
  "groups (store (setColor ok hsbk duration s)) = groups (store s)"
  "pendingQueries (setColor ok hsbk duration s) = pendingQueries s"
  "awaiting (setColor ok hsbk duration s) = awaiting s"
  by (simp_all add: setColor_def Let_def)

lemma setPower_other [simp]:
  "groups (store (setPower ok on duration s)) = groups (store s)"
  "pendingQueries (setPower ok on duration s) = pendingQueries s"
  "awaiting (setPower ok on duration s) = awaiting s"
  by (simp_all add: setPower_def Let_def)

lemma togglePower_other [simp]:
  "groups (store (togglePower ok s)) = groups (store s)"
  "pendingQueries (togglePower ok s) = pendingQueries s"
  "awaiting (togglePower ok s) = awaiting s"
  by (simp_all add: togglePower_def Let_def)

lemma queryDeviceState_settle_pending:
  "pendingQueries (state_of (queryDeviceState_settle sn rs now s)) = pendingQueries s - {sn}"
  "awaiting (state_of (queryDeviceState_settle sn rs now s)) = remove1 sn (awaiting s)"
  by (simp_all add: queryDeviceState_settle_def Let_def split: outcome.split)

lemma registerDevice_pending:
  "pendingQueries (registerDevice dev now s) = insert (dev_serialNumber dev) (pendingQueries s)"
  "awaiting (registerDevice dev now s) =
     (if dev_serialNumber dev \<in> pendingQueries s then awaiting s
      else awaiting s @ [dev_serialNumber dev])"
  by (auto simp add: registerDevice_def queryDeviceState_start_def Let_def)

lemma queryDeviceState_start_pending:
  "pendingQueries (queryDeviceState_start dev s) = insert (dev_serialNumber dev) (pendingQueries s)"
  "awaiting (queryDeviceState_start dev s) =
     (if dev_serialNumber dev \<in> pendingQueries s then awaiting s
      else awaiting s @ [dev_serialNumber dev])"
  by (auto simp add: queryDeviceState_start_def Let_def)

text \<open>
  The guard does its work: in every step the suspended refresh cycles stay pairwise for
  different serial numbers, and they are the ones recorded in \<open>pendingQueries\<close>.
\<close>

lemma step_one_refresh_each:
  assumes "distinct (awaiting s)" and "set (awaiting s) = pendingQueries s"
  shows "distinct (awaiting (step e s)) \<and> set (awaiting (step e s)) = pendingQueries (step e s)"
proof (cases e)
  case (QuerySettled sn rs now)
  then show ?thesis using assms
    by (auto simp add: queryDeviceState_settle_pending)
next
  case (RegisterDevice dev now)
  then show ?thesis using assms by (auto simp add: registerDevice_pending)
next
  case (QueryDeviceState dev)
  then show ?thesis using assms by (auto simp add: queryDeviceState_start_pending)
qed (use assms in simp_all)

lemma run_one_refresh_each:
  assumes "distinct (awaiting s)" and "set (awaiting s) = pendingQueries s"
  shows "distinct (awaiting (run evs s)) \<and> set (awaiting (run evs s)) = pendingQueries (run evs s)"
  using assms
proof (induction evs arbitrary: s)
  case Nil
  then show ?case by (simp add: run_def)
next
  case (Cons e evs)
  from step_one_refresh_each [OF Cons.prems, of e] Cons.IH [of "step e s"]
  show ?case by (simp add: run_def)
qed

lemma queryDeviceState_start_noop:
  "dev_serialNumber dev \<in> pendingQueries s \<Longrightarrow> queryDeviceState_start dev s = s"
  by (simp add: queryDeviceState_start_def)

lemma queryDeviceState_start_twice:
  "queryDeviceState_start dev (queryDeviceState_start dev s) = queryDeviceState_start dev s"
  by (simp add: queryDeviceState_start_noop queryDeviceState_start_pending)

lemma run_repeated_start:
  "run (replicate (Suc n) (QueryDeviceState dev)) s = queryDeviceState_start dev s"
proof (induction n arbitrary: s)
  case 0
  then show ?case by (simp add: run_def)
next
  case (Suc n)
  have "run (replicate (Suc (Suc n)) (QueryDeviceState dev)) s =
          run (replicate (Suc n) (QueryDeviceState dev)) (queryDeviceState_start dev s)"
    by (simp add: run_def)
  also have "\<dots> = queryDeviceState_start dev (queryDeviceState_start dev s)"
    by (rule Suc.IH)
  also have "\<dots> = queryDeviceState_start dev s"
    by (rule queryDeviceState_start_twice)
  finally show ?case .
qed

lemma count_list_distinct: "distinct xs \<Longrightarrow> count_list xs x \<le> 1"
  by (induction xs) (auto simp add: count_list_0_iff)

text \<open>
  Claim C3. In every state the store reaches from its initial state, whatever the events,
  the suspended refresh cycles are for pairwise different serial numbers (at most one per
  device) and are the ones in \<open>pendingQueries\<close>. A call of \<open>queryDeviceState\<close> for a device
  with a refresh in flight changes nothing and sends nothing. So \<open>n + 1\<close> calls in a row
  for one device do what the first of them does: when no refresh was in flight, one set
  of four queries is sent and one cycle is suspended, and the store is not written.
\<close>

theorem refresh_dedup:
  "distinct (awaiting (run evs System_init))
   \<and> set (awaiting (run evs System_init)) = pendingQueries (run evs System_init)
   \<and> count_list (awaiting (run evs System_init)) sn \<le> 1
   \<and> (dev_serialNumber dev \<in> pendingQueries s \<longrightarrow> queryDeviceState_start dev s = s)
   \<and> run (replicate (Suc n) (QueryDeviceState dev)) s = queryDeviceState_start dev s
   \<and> (dev_serialNumber dev \<notin> pendingQueries s \<longrightarrow>
        sent (run (replicate (Suc n) (QueryDeviceState dev)) s) =
          sent s @ [(GetColorCommand, dev), (GetLabelCommand, dev), (GetGroupCommand, dev),
                    (GetVersionCommand, dev)]
        \<and> awaiting (run (replicate (Suc n) (QueryDeviceState dev)) s) =
            awaiting s @ [dev_serialNumber dev]
        \<and> store (run (replicate (Suc n) (QueryDeviceState dev)) s) = store s)"
proof -
  have init: "distinct (awaiting System_init)" "set (awaiting System_init) = pendingQueries System_init"
    by (simp_all add: System_init_def)
  have inv: "distinct (awaiting (run evs System_init))
      \<and> set (awaiting (run evs System_init)) = pendingQueries (run evs System_init)"
    by (rule run_one_refresh_each [OF init])
  then have once: "count_list (awaiting (run evs System_init)) sn \<le> 1"
    using count_list_distinct [of "awaiting (run evs System_init)" sn] by simp
  have first: "sent (queryDeviceState_start dev s) =
          sent s @ [(GetColorCommand, dev), (GetLabelCommand, dev), (GetGroupCommand, dev),
                    (GetVersionCommand, dev)]
        \<and> awaiting (queryDeviceState_start dev s) = awaiting s @ [dev_serialNumber dev]
        \<and> store (queryDeviceState_start dev s) = store s"
    if "dev_serialNumber dev \<notin> pendingQueries s"
    using that by (simp add: queryDeviceState_start_def Let_def)
  show ?thesis
    unfolding run_repeated_start
    using inv once first queryDeviceState_start_noop [of dev s] by blast
qed

theorem refresh_dedup_witness:
  "dev_serialNumber lamp \<in> pendingQueries (registerDevice lamp 1 System_init)
   \<and> run (replicate (Suc 2) (QueryDeviceState lamp)) (registerDevice lamp 1 System_init)
       = registerDevice lamp 1 System_init
   \<and> awaiting (registerDevice lamp 1 System_init) = [''d073d5000001'']
   \<and> dev_serialNumber spot \<notin> pendingQueries (registerDevice lamp 1 System_init)
   \<and> sent (run (replicate (Suc 2) (QueryDeviceState spot)) (registerDevice lamp 1 System_init))
       = [(GetColorCommand, lamp), (GetLabelCommand, lamp), (GetGroupCommand, lamp),
          (GetVersionCommand, lamp), (GetColorCommand, spot), (GetLabelCommand, spot),
          (GetGroupCommand, spot), (GetVersionCommand, spot)]
   \<and> awaiting (run (replicate (Suc 2) (QueryDeviceState spot)) (registerDevice lamp 1 System_init))
       = [''d073d5000001'', ''d073d5000002'']"
proof -
  have pending: "dev_serialNumber lamp \<in> pendingQueries (registerDevice lamp 1 System_init)"
    "dev_serialNumber spot \<notin> pendingQueries (registerDevice lamp 1 System_init)"
    by (simp_all add: registerDevice_pending sample_defs)
  have before: "awaiting (registerDevice lamp 1 System_init) = [''d073d5000001'']"
    "sent (registerDevice lamp 1 System_init) =
       [(GetColorCommand, lamp), (GetLabelCommand, lamp), (GetGroupCommand, lamp),
        (GetVersionCommand, lamp)]"
    by (simp_all add: eval_defs sample_defs Let_def)
  let ?s = "registerDevice lamp 1 System_init"
  note lamp_again = refresh_dedup [of "[]" "''d073d5000001''" lamp ?s 2]
  note spot_new = refresh_dedup [of "[]" "''d073d5000001''" spot ?s 2]
  from lamp_again pending(1)
  have 1: "run (replicate (Suc 2) (QueryDeviceState lamp)) ?s = ?s"
    by metis
  from spot_new pending(2)
  have 2: "sent (run (replicate (Suc 2) (QueryDeviceState spot)) ?s) =
          sent ?s @ [(GetColorCommand, spot), (GetLabelCommand, spot), (GetGroupCommand, spot),
                    (GetVersionCommand, spot)]"
    and 3: "awaiting (run (replicate (Suc 2) (QueryDeviceState spot)) ?s) =
            awaiting ?s @ [dev_serialNumber spot]"
    by blast+
  have 4: "dev_serialNumber spot = ''d073d5000002''" by (simp add: spot_def)
  show ?thesis
    unfolding 1 2 3 before using pending by (simp add: 4)
qed

section \<open>Group membership\<close>

lemma group_member_cong: "groups st' = groups st \<Longrightarrow> group_member st' gid k = group_member st gid k"
  by (simp add: group_member_def)

lemma apply_versionResult_groups:
  "map_of (devices st) sn \<noteq> None \<Longrightarrow> groups (state_of (apply_versionResult sn r st)) = groups st"
  by (cases r) (simp_all add: apply_versionResult_def setStore_devices_present Let_def del: not_None_eq)

lemma apply_colorResult_groups:
  "map_of (devices st) sn \<noteq> None \<Longrightarrow> groups (state_of (apply_colorResult sn r st)) = groups st"
  by (cases r)
     (simp_all add: apply_colorResult_def setStore_devices_present del: not_None_eq
        split: option.split)

lemma apply_labelResult_groups:
  "map_of (devices st) sn \<noteq> None \<Longrightarrow> groups (state_of (apply_labelResult sn r st)) = groups st"
  by (cases r) (simp_all add: apply_labelResult_def setStore_devices_present del: not_None_eq)

lemma apply_groupResult_members:
  assumes "map_of (devices st) sn \<noteq> None"
  shows "group_member st gid k \<Longrightarrow> group_member (state_of (apply_groupResult sn r st)) gid k"
    and "r = Fulfilled g \<Longrightarrow> group_member (state_of (apply_groupResult sn r st)) (sg_group g) sn"
  using assms
  by (cases r;
      auto simp add: apply_groupResult_def setStore_devices_present Let_def group_member_def
        update_conv' map_of_map_entry simp del: not_None_eq split: option.splits)+

lemma refresh_members:
  assumes present: "map_of (devices (store s)) sn \<noteq> None"
  shows "\<exists>s'. queryDeviceState_settle sn rs now s = Returned s'
           \<and> (\<forall>gid k. group_member (store s) gid k \<longrightarrow> group_member (store s') gid k)
           \<and> (\<forall>g. groupResult rs = Fulfilled g \<longrightarrow> group_member (store s') (sg_group g) sn)"
proof -
  obtain st1 where 1: "apply_versionResult sn (versionResult rs) (store s) = Returned st1"
    and p1: "map_of (devices st1) sn \<noteq> None"
    using apply_versionResult_present [OF present] by blast
  obtain st2 where 2: "apply_colorResult sn (colorResult rs) st1 = Returned st2"
    and p2: "map_of (devices st2) sn \<noteq> None"
    using apply_colorResult_present [OF p1] by blast
  obtain st3 where 3: "apply_labelResult sn (labelResult rs) st2 = Returned st3"
    and p3: "map_of (devices st3) sn \<noteq> None"
    using apply_labelResult_present [OF p2] by blast
  obtain st4 where 4: "apply_groupResult sn (groupResult rs) st3 = Returned st4"
    and p4: "map_of (devices st4) sn \<noteq> None"
    using apply_groupResult_present [OF p3] by blast
  have g1: "groups st1 = groups (store s)"
    using apply_versionResult_groups [OF present, of "versionResult rs"] by (simp add: 1)
  have g2: "groups st2 = groups st1"
    using apply_colorResult_groups [OF p1, of "colorResult rs"] by (simp add: 2)
  have g3: "groups st3 = groups st2"
    using apply_labelResult_groups [OF p2, of "labelResult rs"] by (simp add: 3)
  have same: "group_member st3 gid k = group_member (store s) gid k" for gid k
    by (simp add: group_member_def g1 g2 g3)
  have s4: "state_of (apply_groupResult sn (groupResult rs) st3) = st4"
    by (simp add: 4)
  have kept: "group_member (store s) gid k \<Longrightarrow> group_member st4 gid k" for gid k
    using apply_groupResult_members(1) [OF p3, of gid k "groupResult rs"]
    unfolding s4 by (simp add: same)
  have added: "groupResult rs = Fulfilled g \<Longrightarrow> group_member st4 (sg_group g) sn" for g
    using apply_groupResult_members(2) [OF p3, of "groupResult rs" g]
    unfolding s4 by blast
  let ?st = "set_device sn (\<lambda>d. d\<lparr>lastSeen := now\<rparr>) (set_device sn (\<lambda>d. d\<lparr>online := True\<rparr>) st4)"
  have batch: "batch_update sn rs now (store s) = Returned ?st"
    by (simp add: batch_update_def 1 2 3 4 p4 setStore_devices_present)
  have "group_member ?st gid k = group_member st4 gid k" for gid k
    by (simp add: group_member_def)
  with kept added batch show ?thesis
    by (simp add: queryDeviceState_settle_def apply_results_def)
qed

lemma batch_update_absent:
  assumes "map_of (devices st) sn = None"
  shows "batch_update sn rs now st = Threw TypeError st"
  using assms
  by (cases "versionResult rs"; cases "colorResult rs"; cases "labelResult rs";
      cases "groupResult rs")
     (simp_all add: batch_update_def apply_versionResult_def apply_colorResult_def
        apply_labelResult_def apply_groupResult_def setStore_devices_absent Let_def)

lemma refresh_absent:
  assumes "map_of (devices (store s)) sn = None"
  shows "store (state_of (queryDeviceState_settle sn rs now s)) = store s"
  using assms
  by (simp add: queryDeviceState_settle_def apply_results_def batch_update_absent
      setStore_devices_absent)

lemma refresh_keeps_members:
  assumes "group_member (store s) gid k"
  shows "group_member (store (state_of (queryDeviceState_settle sn rs now s))) gid k"
proof (cases "map_of (devices (store s)) sn")
  case None
  then show ?thesis using assms by (simp add: refresh_absent)
next
  case (Some d)
  then have "map_of (devices (store s)) sn \<noteq> None" by simp
  from refresh_members [OF this, of rs now] assms show ?thesis by auto
qed

lemma fold_set_device_groups [simp]:
  "groups (fold (\<lambda>k. set_device k (f k)) ks st) = groups st"
  by (induction ks arbitrary: st) simp_all

lemma setStore_devices_groups [simp]:
  "groups (state_of (setStore_devices sn f st)) = groups st"
  by (simp add: setStore_devices_def split: option.split)

lemma state_of_and_then:
  "state_of (and_then m f) = (case m of Returned st \<Rightarrow> state_of (f st) | Threw e st \<Rightarrow> st)"
  by (cases m) simp_all

lemma toggleSelect_groups [simp]: "groups (state_of (toggleSelect sn st)) = groups st"
  by (simp add: toggleSelect_def Let_def setStore_devices_def split: option.split)

lemma selectDevice_groups [simp]: "groups (state_of (selectDevice sn st)) = groups st"
  by (simp add: selectDevice_def setStore_devices_def split: option.split)

lemma selectAll_groups [simp]: "groups (selectAll st) = groups st"
  by (simp add: selectAll_def)

lemma selectNone_groups [simp]: "groups (selectNone st) = groups st"
  by (simp add: selectNone_def)

lemma toggleGroup_members:
  "group_member (state_of (toggleGroup g st)) gid k = group_member st gid k"
  by (simp add: toggleGroup_def setStore_groups_def group_member_def map_of_map_entry
      split: option.split)

lemma registerDevice_groups [simp]: "groups (store (registerDevice dev now s)) = groups (store s)"
  by (simp add: registerDevice_def queryDeviceState_start_def Let_def)

lemma queryDeviceState_start_store [simp]: "store (queryDeviceState_start dev s) = store s"
  by (simp add: queryDeviceState_start_def Let_def)

lemma step_keeps_members:
  assumes "group_member (store s) gid k"
  shows "group_member (store (step e s)) gid k"
proof (cases e)
  case (QuerySettled sn rs now)
  then show ?thesis using assms refresh_keeps_members by simp
next
  case (ToggleGroup g)
  then show ?thesis using assms by (simp add: toggleGroup_members)
qed (use assms in \<open>simp_all add: group_member_def\<close>)

lemma run_keeps_members:
  assumes "group_member (store s) gid k"
  shows "group_member (store (run evs s)) gid k"
  using assms
proof (induction evs arbitrary: s)
  case Nil
  then show ?case by (simp add: run_def)
next
  case (Cons e evs)
  from Cons.IH [OF step_keeps_members [OF Cons.prems, of e]] show ?case
    by (simp add: run_def)
qed

text \<open>
  Claim C10. A serial number in the member list of a group is still in it after any step
  of the store, and so after any sequence of steps. When a refresh of a device that has
  a record settles with a group reply, the device is in the member list of the reported
  group afterwards and still in every list it was in: a device whose reply names a
  different group than before is then a member of both.
\<close>

theorem group_membership_append_only:
  assumes "group_member (store s) gid sn"
  shows "group_member (store (step e s)) gid sn
       \<and> group_member (store (run evs s)) gid sn
       \<and> (map_of (devices (store s)) sn \<noteq> None \<and> groupResult rs = Fulfilled g \<longrightarrow>
            group_member (store (state_of (queryDeviceState_settle sn rs now s))) gid sn
          \<and> group_member (store (state_of (queryDeviceState_settle sn rs now s))) (sg_group g) sn)"
proof -
  have "group_member (store (state_of (queryDeviceState_settle sn rs now s))) (sg_group g) sn"
    if "map_of (devices (store s)) sn \<noteq> None" and "groupResult rs = Fulfilled g"
    using refresh_members [OF that(1), of rs now] that(2) by auto
  with step_keeps_members [OF assms] run_keeps_members [OF assms] refresh_keeps_members [OF assms]
  show ?thesis by blast
qed

theorem group_membership_append_only_witness:
  "group_member (store two_lamps) ''a1b2'' ''d073d5000001''
   \<and> \<not> group_member (store two_lamps) ''c3d4'' ''d073d5000001''
   \<and> group_member
       (store (state_of (queryDeviceState_settle ''d073d5000001'' (only_group kitchen) 3 two_lamps)))
       ''a1b2'' ''d073d5000001''
   \<and> group_member
       (store (state_of (queryDeviceState_settle ''d073d5000001'' (only_group kitchen) 3 two_lamps)))
       ''c3d4'' ''d073d5000001''
   \<and> group_member
       (store (run [QueryDeviceState lamp, QuerySettled ''d073d5000001'' (only_group kitchen) 3,
                    SelectAll, ToggleGroup ''a1b2''] two_lamps))
       ''a1b2'' ''d073d5000001''"
proof -
  have member: "group_member (store two_lamps) ''a1b2'' ''d073d5000001''"
    and other: "\<not> group_member (store two_lamps) ''c3d4'' ''d073d5000001''"
    and present: "map_of (devices (store two_lamps)) ''d073d5000001'' \<noteq> None"
    by (simp_all add: two_lamps_store group_member_def)
  have reply: "groupResult (only_group kitchen) = Fulfilled kitchen" "sg_group kitchen = ''c3d4''"
    by (simp_all add: only_group_def kitchen_def)
  from group_membership_append_only [OF member, of _ _ "only_group kitchen" kitchen 3]
    member other present reply
  show ?thesis by simp
qed

section \<open>Group ids\<close>

text \<open>
  In every state the store reaches, the groups are keyed by their ids: the keys are
  distinct and each group's \<open>id\<close> is its key. So the groups of a reachable state have
  distinct ids, which is what the sorted view asks of the store.
\<close>

lemma keyed_ids:
  "list_all (\<lambda>(k, g). g_id g = k) gs \<Longrightarrow> map (g_id \<circ> snd) gs = map fst gs"
  by (induction gs) auto

lemma keyed_map_entry:
  assumes "list_all (\<lambda>(k, g). g_id g = k) gs" and "\<And>g. g_id (f g) = g_id g"
  shows "list_all (\<lambda>(k, g). g_id g = k) (AList.map_entry gid f gs)"
  using assms by (induction gs) auto

lemma keyed_update:
  assumes "list_all (\<lambda>(k, g). g_id g = k) gs" and "g_id g = gid"
  shows "list_all (\<lambda>(k, g). g_id g = k) (AList.update gid g gs)"
  using assms by (induction gs) auto

lemma apply_groupResult_keyed:
  assumes "map_of (devices st) sn \<noteq> None"
    and "distinct (map fst (groups st))" and "list_all (\<lambda>(k, g). g_id g = k) (groups st)"
  shows "distinct (map fst (groups (state_of (apply_groupResult sn r st))))
       \<and> list_all (\<lambda>(k, g). g_id g = k) (groups (state_of (apply_groupResult sn r st)))"
  using assms
  by (cases r)
     (auto simp add: apply_groupResult_def setStore_devices_present Let_def distinct_update
        distinct_map_entry keyed_map_entry keyed_update simp del: not_None_eq
        split: option.splits)

lemma refresh_keyed:
  assumes keys: "distinct (map fst (groups (store s)))"
    and ids: "list_all (\<lambda>(k, g). g_id g = k) (groups (store s))"
  shows "distinct (map fst (groups (store (state_of (queryDeviceState_settle sn rs now s)))))
       \<and> list_all (\<lambda>(k, g). g_id g = k)
           (groups (store (state_of (queryDeviceState_settle sn rs now s))))"
proof (cases "map_of (devices (store s)) sn")
  case None
  then show ?thesis using assms by (simp add: refresh_absent)
next
  case (Some d)
  then have present: "map_of (devices (store s)) sn \<noteq> None" by simp
  obtain st1 where 1: "apply_versionResult sn (versionResult rs) (store s) = Returned st1"
    and p1: "map_of (devices st1) sn \<noteq> None"
    using apply_versionResult_present [OF present] by blast
  obtain st2 where 2: "apply_colorResult sn (colorResult rs) st1 = Returned st2"
    and p2: "map_of (devices st2) sn \<noteq> None"
    using apply_colorResult_present [OF p1] by blast
  obtain st3 where 3: "apply_labelResult sn (labelResult rs) st2 = Returned st3"
    and p3: "map_of (devices st3) sn \<noteq> None"
    using apply_labelResult_present [OF p2] by blast
  obtain st4 where 4: "apply_groupResult sn (groupResult rs) st3 = Returned st4"
    and p4: "map_of (devices st4) sn \<noteq> None"
    using apply_groupResult_present [OF p3] by blast
  have g1: "groups st1 = groups (store s)"
    using apply_versionResult_groups [OF present, of "versionResult rs"] by (simp add: 1)
  have g2: "groups st2 = groups st1"
    using apply_colorResult_groups [OF p1, of "colorResult rs"] by (simp add: 2)
  have g3: "groups st3 = groups st2"
    using apply_labelResult_groups [OF p2, of "labelResult rs"] by (simp add: 3)
  have s4: "state_of (apply_groupResult sn (groupResult rs) st3) = st4"
    by (simp add: 4)
  have keyed4: "distinct (map fst (groups st4)) \<and> list_all (\<lambda>(k, g). g_id g = k) (groups st4)"
    using apply_groupResult_keyed [OF p3, of "groupResult rs"] keys ids
    unfolding s4 by (simp add: g1 g2 g3)
  have "batch_update sn rs now (store s) =
          Returned (set_device sn (\<lambda>d. d\<lparr>lastSeen := now\<rparr>)
                      (set_device sn (\<lambda>d. d\<lparr>online := True\<rparr>) st4))"
    by (simp add: batch_update_def 1 2 3 4 p4 setStore_devices_present)
  with keyed4 show ?thesis
    by (simp add: queryDeviceState_settle_def apply_results_def)
qed

lemma toggleGroup_keyed:
  assumes "distinct (map fst (groups st))" and "list_all (\<lambda>(k, g). g_id g = k) (groups st)"
  shows "distinct (map fst (groups (state_of (toggleGroup gid st))))
       \<and> list_all (\<lambda>(k, g). g_id g = k) (groups (state_of (toggleGroup gid st)))"
  using assms
  by (simp add: toggleGroup_def setStore_groups_def distinct_map_entry keyed_map_entry
      split: option.split)

lemma step_keyed:
  assumes "distinct (map fst (groups (store s)))"
    and "list_all (\<lambda>(k, g). g_id g = k) (groups (store s))"
  shows "distinct (map fst (groups (store (step e s))))
       \<and> list_all (\<lambda>(k, g). g_id g = k) (groups (store (step e s)))"
proof (cases e)
  case (QuerySettled sn rs now)
  then show ?thesis using assms refresh_keyed by simp
next
  case (ToggleGroup gid)
  then show ?thesis using assms toggleGroup_keyed by simp
qed (use assms in simp_all)

lemma run_keyed:
  assumes "distinct (map fst (groups (store s)))"
    and "list_all (\<lambda>(k, g). g_id g = k) (groups (store s))"
  shows "distinct (map fst (groups (store (run evs s))))
       \<and> list_all (\<lambda>(k, g). g_id g = k) (groups (store (run evs s)))"
  using assms
proof (induction evs arbitrary: s)
  case Nil
  then show ?case by (simp add: run_def)
next
  case (Cons e evs)
  from step_keyed [OF Cons.prems, of e] Cons.IH [of "step e s"] show ?case
    by (simp add: run_def)
qed

lemma reachable_group_ids:
  "distinct (map (g_id \<circ> snd) (groups (store (run evs System_init))))"
proof -
  have "distinct (map fst (groups (store System_init)))"
    and "list_all (\<lambda>(k, g). g_id g = k) (groups (store System_init))"
    by (simp_all add: System_init_def)
  from run_keyed [OF this, of evs]
  have keys: "distinct (map fst (groups (store (run evs System_init))))"
    and ids: "list_all (\<lambda>(k, g). g_id g = k) (groups (store (run evs System_init)))"
    by blast+
  from ids have eq: "map (g_id \<circ> snd) (groups (store (run evs System_init)))
                   = map fst (groups (store (run evs System_init)))"
    by (rule keyed_ids)
  show ?thesis unfolding eq by (rule keys)
qed

end
